theory Spec2Isabelle
  imports Main "HOL-Library.Multiset" "HOL-Library.Char_ord" "HOL-Library.List_Lexorder"
begin

section \<open>Python text operations used by the sources\<close>

text \<open>
  Text is modelled as \<^typ>\<open>string\<close>. A \<^typ>\<open>char\<close> stands for one code point below 256;
  the sources only ever inspect ASCII characters (slash, colon, dot, underscore, comma,
  white space), every other character is passed through untouched.
\<close>

definition py_isspace :: "char \<Rightarrow> bool" where
  \<comment> \<open>The characters below 256 that \<^verbatim>\<open>str.strip()\<close> removes.\<close>
  "py_isspace c = (c \<in> {CHR 0x09, CHR 0x0A, CHR 0x0B, CHR 0x0C, CHR 0x0D,
                          CHR 0x1C, CHR 0x1D, CHR 0x1E, CHR 0x1F, CHR 0x20,
                          CHR 0x85, CHR 0xA0})"

definition lstrip :: "string \<Rightarrow> string" where
  "lstrip s = dropWhile py_isspace s"

definition rstrip :: "string \<Rightarrow> string" where
  "rstrip s = rev (dropWhile py_isspace (rev s))"

definition strip :: "string \<Rightarrow> string" where
  "strip s = rstrip (lstrip s)"


fun join :: "string \<Rightarrow> string list \<Rightarrow> string" where
  "join sep [] = []"
| "join sep [x] = x"
| "join sep (x # y # ys) = x @ sep @ join sep (y # ys)"

fun startswith :: "string \<Rightarrow> string \<Rightarrow> bool" where
  \<comment> \<open>\<^verbatim>\<open>s.startswith(p)\<close>, written \<open>startswith p s\<close>\<close>
  "startswith [] s = True"
| "startswith (p # ps) [] = False"
| "startswith (p # ps) (c # cs) = (p = c \<and> startswith ps cs)"

definition endswith :: "string \<Rightarrow> string \<Rightarrow> bool" where
  \<comment> \<open>\<^verbatim>\<open>s.endswith(p)\<close>, written \<open>endswith p s\<close>\<close>
  "endswith suf s = startswith (rev suf) (rev s)"

fun contains :: "string \<Rightarrow> string \<Rightarrow> bool" where
  \<comment> \<open>\<^verbatim>\<open>p in s\<close>, written \<open>contains p s\<close>\<close>
  "contains p [] = (p = [])"
| "contains p (c # cs) = (startswith p (c # cs) \<or> contains p cs)"

definition replace_char :: "char \<Rightarrow> char \<Rightarrow> string \<Rightarrow> string" where
  \<comment> \<open>\<^verbatim>\<open>s.replace(a, b)\<close> for one-character \<open>a\<close> and \<open>b\<close>\<close>
  "replace_char a b s = map (\<lambda>c. if c = a then b else c) s"

fun split_first :: "string \<Rightarrow> string \<Rightarrow> string" where
  \<comment> \<open>\<^verbatim>\<open>s.split(sep)[0]\<close> for a non-empty separator: the text before its first occurrence\<close>
  "split_first sep [] = []"
| "split_first sep (c # cs) =
     (if startswith sep (c # cs) then [] else c # split_first sep cs)"

fun str_nat :: "nat \<Rightarrow> string" where
  "str_nat n = (if n < 10 then [''0123456789'' ! n]
                else str_nat (n div 10) @ [''0123456789'' ! (n mod 10)])"

declare str_nat.simps [simp del]

definition quoted :: "string \<Rightarrow> string" where
  \<comment> \<open>a text between single quotes, as the messages of the sources print names\<close>
  "quoted s = CHR 0x27 # s @ [CHR 0x27]"

definition str_int :: "int \<Rightarrow> string" where
  \<comment> \<open>\<^verbatim>\<open>str(i)\<close> of a Python integer\<close>
  "str_int i = (if i < 0 then CHR ''-'' # str_nat (nat (- i)) else str_nat (nat i))"


section \<open>nbm_core/exceptions.py and nbm_core/process.py\<close>

text \<open>
  \<^verbatim>\<open>CmdResult\<close> is the union of the subprocess result objects. \<^verbatim>\<open>run\<close> calls
  \<^verbatim>\<open>subprocess.run(..., check=False)\<close>, so only a completed process or an expired timeout
  is ever produced. The partial output carried by an expired timeout is absent or a byte
  string.
\<close>

datatype cmd_result =
    CompletedProcess (cp_args: "string list") (returncode: int)
                     (cp_stdout: string) (cp_stderr: string)
  | TimeoutExpired (te_cmd: "string list") (te_timeout: int) (te_output: "string option")

text \<open>
  The exceptions that the modelled code raises or meets. \<^verbatim>\<open>CommandError\<close> is the
  repository's own class; the others are Python's and the libraries'. All of them are
  subclasses of \<^verbatim>\<open>Exception\<close>.
\<close>

datatype exn =
    CommandError (message: string) (result: "cmd_result option")
  | KeyError string
  | TypeError string
  | AttributeError string
  | JSONDecodeError string
  | OSError string
  | LockException string

fun exn_str :: "exn \<Rightarrow> string" where
  \<comment> \<open>\<^verbatim>\<open>str(e)\<close>\<close>
  "exn_str (CommandError m r) = m"
| "exn_str (KeyError k) = quoted k"
| "exn_str (TypeError m) = m"
| "exn_str (AttributeError m) = m"
| "exn_str (JSONDecodeError m) = m"
| "exn_str (OSError m) = m"
| "exn_str (LockException m) = m"

text \<open>What the operating system answers to one \<^verbatim>\<open>subprocess.run\<close> call.\<close>

datatype proc_outcome =
    FileNotFound
  | TimedOut "string option"
  | Exited int string string

datatype level = DEBUG | INFO | WARNING | ERROR

type_synonym log = "(level \<times> string) list"

definition not_found_msg :: "string list \<Rightarrow> string" where
  "not_found_msg cmd =
     ''Command '' @ quoted (hd cmd)
       @ '' not found. Is it installed and in your system's PATH?''"

definition timeout_msg :: "string list \<Rightarrow> int \<Rightarrow> string" where
  "timeout_msg cmd t =
     ''Command '' @ quoted (join '' '' cmd) @ '' timed out after '' @ str_int t
       @ '' seconds.''"

definition failed_msg :: "string list \<Rightarrow> int \<Rightarrow> string \<Rightarrow> string" where
  "failed_msg cmd rc details =
     ''Command '' @ quoted (join '' '' cmd) @ '' failed with exit code '' @ str_int rc
       @ [CHR '':'', CHR 0x0A] @ details"

definition run ::
  "int \<Rightarrow> proc_outcome \<Rightarrow> string list \<Rightarrow> string \<Rightarrow> bool \<Rightarrow> bool \<Rightarrow> log \<times> (exn + cmd_result)"
where
  \<comment> \<open>\<open>run COMMAND_TIMEOUT outcome cmd cwd check quiet\<close>; every caller passes a non-empty \<open>cmd\<close>\<close>
  "run command_timeout oc cmd cwd check quiet =
     (let log0 = (if \<not> quiet
                  then [(DEBUG, ''Running: '' @ join '' '' cmd @ '' in '' @ quoted cwd)]
                  else [])
      in case oc of
           FileNotFound \<Rightarrow> (log0, Inl (CommandError (not_found_msg cmd) None))
         | TimedOut partial \<Rightarrow>
             (let e = TimeoutExpired cmd command_timeout partial;
                  msg = timeout_msg cmd command_timeout
              in if check then (log0, Inl (CommandError msg (Some e)))
                 else (log0 @ (if \<not> quiet then [(WARNING, msg)] else []), Inr e))
         | Exited rc out err \<Rightarrow>
             (let proc = CompletedProcess cmd rc out err
              in if rc \<noteq> 0 then
                   (if check then
                      (let stderr = strip err;
                           stdout = strip out;
                           details = (if stderr \<noteq> [] then stderr else stdout)
                       in (log0, Inl (CommandError (failed_msg cmd rc details) (Some proc))))
                    else
                      (log0 @ (if \<not> quiet
                               then [(DEBUG, ''Command '' @ quoted (join '' '' cmd)
                                       @ '' failed with non-zero exit code '' @ str_int rc
                                       @ '' (check=False).'')]
                               else []),
                       Inr proc))
                 else (log0, Inr proc)))"

text \<open>
  The three failure classes of the executor, read off a raised \<^verbatim>\<open>CommandError\<close> by the
  result object it wraps: none for a missing executable, the expired timeout, or the
  completed process with its exit code.
\<close>

datatype failure = ExecutableNotFound | Timeout | NonZeroExit

fun failure_of :: "exn + cmd_result \<Rightarrow> failure option" where
  "failure_of (Inl (CommandError m None)) = Some ExecutableNotFound"
| "failure_of (Inl (CommandError m (Some (TimeoutExpired c t p)))) = Some Timeout"
| "failure_of (Inl (CommandError m (Some (CompletedProcess c rc out err)))) = Some NonZeroExit"
| "failure_of other = None"

fun failure_text :: "exn + cmd_result \<Rightarrow> string" where
  "failure_text (Inl e) = exn_str e"
| "failure_text (Inr r) = []"



section \<open>nbm_core/git.py: the hosted name of a URL\<close>

text \<open>
  \<^verbatim>\<open>re.search(r"github\.com[/:]([^/]+/[^/]+?)(\.git)?$", url)\<close>, followed by
  \<^verbatim>\<open>match.group(1)\<close>. The matcher is written out for this pattern, piece by piece, in the
  order in which the backtracking engine tries the alternatives:
  \<^item> \<open>at_dollar\<close> is \<^verbatim>\<open>$\<close> (no MULTILINE flag): the end of the text, or the position of a
    newline that is the last character;
  \<^item> \<open>git_dollar\<close> is \<^verbatim>\<open>(\.git)?$\<close>: the optional group is greedy, so it is tried with
    \<^verbatim>\<open>.git\<close> first and without it second;
  \<^item> \<open>repo_lazy\<close> is the lazy \<^verbatim>\<open>[^/]+?\<close> after its first character: it stops at the shortest
    text after which the rest matches, and otherwise takes one more character that is not a
    slash;
  \<^item> \<open>match_group1\<close> is \<^verbatim>\<open>([^/]+/[^/]+?)\<close>: the greedy \<^verbatim>\<open>[^/]+\<close> can only be followed by
    a slash when it has taken every character up to the first slash;
  \<^item> \<open>match_at\<close> anchors the pattern at the start of its argument, and \<open>re_search\<close> tries
    the start positions from left to right.
\<close>

definition at_dollar :: "string \<Rightarrow> bool" where
  "at_dollar rest = (rest = [] \<or> rest = [CHR 0x0A])"

definition git_dollar :: "string \<Rightarrow> bool" where
  "git_dollar rest = ((startswith ''.git'' rest \<and> at_dollar (drop 4 rest)) \<or> at_dollar rest)"

fun repo_lazy :: "string \<Rightarrow> string \<Rightarrow> string option" where
  "repo_lazy acc [] = (if git_dollar [] then Some acc else None)"
| "repo_lazy acc (c # cs) =
     (if git_dollar (c # cs) then Some acc
      else if c = CHR ''/'' then None
      else repo_lazy (acc @ [c]) cs)"

definition match_repo :: "string \<Rightarrow> string option" where
  "match_repo s = (case s of [] \<Rightarrow> None
                   | c # cs \<Rightarrow> if c = CHR ''/'' then None else repo_lazy [c] cs)"

definition match_group1 :: "string \<Rightarrow> string option" where
  "match_group1 s =
     (let owner = takeWhile (\<lambda>c. c \<noteq> CHR ''/'') s;
          rest = dropWhile (\<lambda>c. c \<noteq> CHR ''/'') s
      in if owner = [] then None
         else case rest of [] \<Rightarrow> None
              | slash # t \<Rightarrow> (case match_repo t of None \<Rightarrow> None
                               | Some repo \<Rightarrow> Some (owner @ [slash] @ repo)))"

definition match_at :: "string \<Rightarrow> string option" where
  "match_at s =
     (if startswith ''github.com'' s
      then (case drop 10 s of [] \<Rightarrow> None
            | sep # t \<Rightarrow> if sep = CHR ''/'' \<or> sep = CHR '':'' then match_group1 t else None)
      else None)"

fun re_search :: "string \<Rightarrow> string option" where
  "re_search [] = match_at []"
| "re_search (c # cs) = (case match_at (c # cs) of Some g \<Rightarrow> Some g | None \<Rightarrow> re_search cs)"

definition get_repo_name_from_url :: "string \<Rightarrow> string option" where
  "get_repo_name_from_url url = re_search url"



section \<open>nbm_core/state.py: StateManager.write\<close>

text \<open>
  \<^verbatim>\<open>write\<close> touches two files: the state file \<^verbatim>\<open>self.path\<close> and the temporary file beside
  it. A file is absent or has a content.
\<close>

record files =
  target :: "string option"
  temp :: "string option"

text \<open>
  What the environment does to one call: nothing, or the failure of one operation.
  \<open>DumpFails k\<close> is an OS error after \<open>k\<close> characters have reached the temporary file.
\<close>

datatype fault =
    NoFault
  | TempOpenFails
  | DumpFails nat
  | LockOpenFails
  | LockTimesOut
  | ReplaceFails

text \<open>
  The \<^verbatim>\<open>try\<close> block, operation by operation. The result lists the state of the two files
  after each completed operation (what is on disk if execution stops there) and the
  exception that ended the block, if any.
  \<^enum> \<^verbatim>\<open>temp_path.open("w")\<close> creates or empties the temporary file;
  \<^enum> \<^verbatim>\<open>json.dump(state, f, ...)\<close> and the end of the \<^verbatim>\<open>with\<close> write the text;
    \<open>serialized\<close> is that text, or \<open>None\<close> when the state is not JSON-serializable
    (\<^verbatim>\<open>TypeError\<close>);
  \<^enum> \<^verbatim>\<open>portalocker.Lock(str(self.path), "w", timeout=5)\<close> opens the state file for writing,
    which creates it when absent,
  \<^enum> waits for the exclusive lock (\<^verbatim>\<open>LockException\<close> after the timeout),
  \<^enum> and, the mode being \<^verbatim>\<open>"w"\<close>, empties the file it has opened;
  \<^enum> \<^verbatim>\<open>temp_path.replace(self.path)\<close> renames the temporary file onto the state file.
\<close>

definition try_block :: "fault \<Rightarrow> string option \<Rightarrow> files \<Rightarrow> files list \<times> exn option" where
  "try_block flt serialized fs =
     (if flt = TempOpenFails then ([], Some (OSError ''open''))
      else
        let fs1 = fs\<lparr>temp := Some []\<rparr>
        in case serialized of
             None \<Rightarrow> ([fs1], Some (TypeError ''not JSON serializable''))
           | Some text \<Rightarrow>
               (case flt of
                  DumpFails k \<Rightarrow>
                    ([fs1, fs1\<lparr>temp := Some (take k text)\<rparr>], Some (OSError ''write''))
                | _ \<Rightarrow>
                    let fs2 = fs1\<lparr>temp := Some text\<rparr>
                    in if flt = LockOpenFails then ([fs1, fs2], Some (OSError ''open''))
                       else
                         let fs3 = fs2\<lparr>target :=
                                     Some (case target fs2 of None \<Rightarrow> [] | Some c \<Rightarrow> c)\<rparr>
                         in if flt = LockTimesOut
                            then ([fs1, fs2, fs3], Some (LockException ''timeout''))
                            else
                              let fs4 = fs3\<lparr>target := Some []\<rparr>
                              in if flt = ReplaceFails
                                 then ([fs1, fs2, fs3, fs4], Some (OSError ''replace''))
                                 else ([fs1, fs2, fs3, fs4,
                                        fs4\<lparr>target := temp fs4, temp := None\<rparr>], None)))"

definition caught_by_write :: "exn \<Rightarrow> bool" where
  \<comment> \<open>\<^verbatim>\<open>except (portalocker.exceptions.LockException, OSError)\<close>\<close>
  "caught_by_write e = (case e of LockException m \<Rightarrow> True | OSError m \<Rightarrow> True | _ \<Rightarrow> False)"

definition write_state :: "string \<Rightarrow> fault \<Rightarrow> string option \<Rightarrow> files \<Rightarrow> exn option \<times> files \<times> log" where
  \<comment> \<open>\<open>write_state path fault serialized files\<close>: the exception that leaves the call, the files
      and the log after it; \<^verbatim>\<open>finally: temp_path.unlink(missing_ok=True)\<close> runs last\<close>
  "write_state path flt serialized fs =
     (let (steps, exc) = try_block flt serialized fs;
          fs' = (if steps = [] then fs else last steps);
          fs'' = fs'\<lparr>temp := None\<rparr>
      in case exc of
           None \<Rightarrow> (None, fs'', [])
         | Some e \<Rightarrow>
             if caught_by_write e
             then (None, fs'',
                   [(ERROR, ''Failed to write state file '' @ quoted path @ '': '' @ exn_str e)])
             else (Some e, fs'', []))"

section \<open>The environment of a run\<close>

text \<open>
  A path is the list of its components; \<^verbatim>\<open>a / b\<close> appends a component, \<^verbatim>\<open>path.name\<close> is the
  last one.
\<close>

type_synonym path = "string list"

definition name :: "path \<Rightarrow> string" where
  "name p = (if p = [] then [] else last p)"

definition str_path :: "path \<Rightarrow> string" where
  "str_path p = concat (map (\<lambda>c. CHR ''/'' # c) p)"

text \<open>The constants of \<^verbatim>\<open>nbm_core/config.py\<close> that the modelled code reads.\<close>

record config =
  PROJECT_ROOT :: path
  PLUGINS_SRC_DIR :: path
  plugins_src_dir :: string
  YOUR_GITHUB_ORG :: string
  DEV_BRANCH :: string
  COMMAND_TIMEOUT :: int

text \<open>
  The world outside the program: the paths that exist, the external commands issued so far
  (with their working directory) and the log. A \<open>system\<close> says, for a command, a working
  directory and the existing paths, what the command answers and which paths exist
  afterwards.
\<close>

record world =
  exists_paths :: "path set"
  trace :: "(string list \<times> path) list"
  wlog :: log

type_synonym system = "string list \<Rightarrow> path \<Rightarrow> path set \<Rightarrow> proc_outcome \<times> path set"

definition add_log :: "level \<Rightarrow> string \<Rightarrow> world \<Rightarrow> world" where
  "add_log lv msg w = w\<lparr>wlog := wlog w @ [(lv, msg)]\<rparr>"

definition exec ::
  "config \<Rightarrow> system \<Rightarrow> string list \<Rightarrow> path \<Rightarrow> bool \<Rightarrow> bool \<Rightarrow> world \<Rightarrow> (exn + cmd_result) \<times> world"
where
  \<comment> \<open>\<^verbatim>\<open>process.run(cmd, cwd, check, quiet)\<close> in a world\<close>
  "exec cfg sys cmd cwd check quiet w =
     (let (oc, fs') = sys cmd cwd (exists_paths w);
          (l, r) = run (COMMAND_TIMEOUT cfg) oc cmd (str_path cwd) check quiet
      in (r, w\<lparr>exists_paths := fs', trace := trace w @ [(cmd, cwd)], wlog := wlog w @ l\<rparr>))"

definition stdout_text :: "cmd_result \<Rightarrow> string" where
  \<comment> \<open>the common tail of \<^verbatim>\<open>git\<close> and \<^verbatim>\<open>gh\<close>: the stripped standard output, empty when there
      is none; the partial output of an expired timeout stands for its lenient decoding\<close>
  "stdout_text r =
     (case r of
        CompletedProcess c rc out err \<Rightarrow> (if out = [] then [] else strip out)
      | TimeoutExpired c t partial \<Rightarrow>
          (case partial of None \<Rightarrow> [] | Some b \<Rightarrow> if b = [] then [] else strip b))"

definition git ::
  "config \<Rightarrow> system \<Rightarrow> string list \<Rightarrow> path \<Rightarrow> bool \<Rightarrow> bool \<Rightarrow> world \<Rightarrow> (exn + string) \<times> world"
where
  "git cfg sys args cwd check quiet w =
     (case exec cfg sys (''git'' # args) cwd check quiet w of
        (Inl e, w') \<Rightarrow> (Inl e, w')
      | (Inr r, w') \<Rightarrow> (Inr (stdout_text r), w'))"

definition gh ::
  "config \<Rightarrow> system \<Rightarrow> string list \<Rightarrow> path \<Rightarrow> bool \<Rightarrow> bool \<Rightarrow> world \<Rightarrow> (exn + string) \<times> world"
where
  "gh cfg sys args cwd check quiet w =
     (case exec cfg sys (''gh'' # args) cwd check quiet w of
        (Inl e, w') \<Rightarrow> (Inl e, w')
      | (Inr r, w') \<Rightarrow> (Inr (stdout_text r), w'))"

definition uv ::
  "config \<Rightarrow> system \<Rightarrow> string list \<Rightarrow> path \<Rightarrow> bool \<Rightarrow> bool \<Rightarrow> world \<Rightarrow> (exn + cmd_result) \<times> world"
where
  "uv cfg sys args cwd check quiet w = exec cfg sys (''uv'' # args) cwd check quiet w"


section \<open>nbm_core/git.py: the default branch\<close>

text \<open>
  A parsed JSON document, as \<^verbatim>\<open>json.loads\<close> builds it: an object is a dictionary, given here
  by its items. Numbers are integers. \<^verbatim>\<open>json.loads\<close> itself is a parameter of the model: a
  function from the text to the document, or to nothing when it raises
  \<^verbatim>\<open>JSONDecodeError\<close>.
\<close>

datatype json =
    JNull
  | JBool bool
  | JNum int
  | JStr string
  | JArr "json list"
  | JObj "(string \<times> json) list"

fun truthy :: "json \<Rightarrow> bool" where
  "truthy JNull = False"
| "truthy (JBool b) = b"
| "truthy (JNum n) = (n \<noteq> 0)"
| "truthy (JStr s) = (s \<noteq> [])"
| "truthy (JArr xs) = (xs \<noteq> [])"
| "truthy (JObj kvs) = (kvs \<noteq> [])"

fun subscript :: "json \<Rightarrow> string \<Rightarrow> exn + json" where
  \<comment> \<open>\<^verbatim>\<open>value[key]\<close> for a text key\<close>
  "subscript (JObj kvs) k = (case map_of kvs k of None \<Rightarrow> Inl (KeyError k) | Some v \<Rightarrow> Inr v)"
| "subscript (JArr xs) k = Inl (TypeError ''list indices must be integers or slices, not str'')"
| "subscript (JStr s) k = Inl (TypeError ''string indices must be integers, not str'')"
| "subscript v k = Inl (TypeError ''object is not subscriptable'')"

definition branch_lookup :: "(string \<Rightarrow> json option) \<Rightarrow> string \<Rightarrow> exn + json option" where
  \<comment> \<open>\<^verbatim>\<open>if data_str and (data := json.loads(data_str)): return data["defaultBranchRef"]["name"]\<close>;
      \<open>Inr None\<close> when the condition is false and control falls through\<close>
  "branch_lookup loads data_str =
     (if data_str = [] then Inr None
      else case loads data_str of
             None \<Rightarrow> Inl (JSONDecodeError ''Expecting value'')
           | Some data \<Rightarrow>
               if \<not> truthy data then Inr None
               else (case subscript data ''defaultBranchRef'' of
                       Inl e \<Rightarrow> Inl e
                     | Inr ref \<Rightarrow> (case subscript ref ''name'' of
                                     Inl e \<Rightarrow> Inl e
                                   | Inr v \<Rightarrow> Inr (Some v))))"

definition handler_message :: "string \<Rightarrow> exn \<Rightarrow> string" where
  \<comment> \<open>\<^verbatim>\<open>except (json.JSONDecodeError, KeyError)\<close>, then \<^verbatim>\<open>except Exception as e\<close>\<close>
  "handler_message repo_full_name e =
     (case e of
        JSONDecodeError m \<Rightarrow>
          ''Could not parse default branch for '' @ repo_full_name
            @ ''. Falling back to 'main'.''
      | KeyError k \<Rightarrow>
          ''Could not parse default branch for '' @ repo_full_name
            @ ''. Falling back to 'main'.''
      | _ \<Rightarrow> ''An unexpected error occurred: '' @ exn_str e)"

definition branch_handlers :: "string \<Rightarrow> exn \<Rightarrow> world \<Rightarrow> world" where
  \<comment> \<open>both handlers log one warning\<close>
  "branch_handlers repo_full_name e w = add_log WARNING (handler_message repo_full_name e) w"

definition get_default_branch ::
  "config \<Rightarrow> system \<Rightarrow> (string \<Rightarrow> json option) \<Rightarrow> string \<Rightarrow> world \<Rightarrow> json \<times> world"
where
  \<comment> \<open>every exception of the model is an \<^verbatim>\<open>Exception\<close>, so the second handler catches what
      the first does not; the value returned is whatever the document holds under the name\<close>
  "get_default_branch cfg sys loads repo_full_name w =
     (case gh cfg sys [''repo'', ''view'', repo_full_name, ''--json'', ''defaultBranchRef'']
              (PROJECT_ROOT cfg) False True w of
        (Inl e, w') \<Rightarrow> (JStr ''main'', branch_handlers repo_full_name e w')
      | (Inr data_str, w') \<Rightarrow>
          (case branch_lookup loads data_str of
             Inl e \<Rightarrow> (JStr ''main'', branch_handlers repo_full_name e w')
           | Inr (Some v) \<Rightarrow> (v, w')
           | Inr None \<Rightarrow> (JStr ''main'', w')))"


section \<open>nbm_core/project.py: setup_plugin_repo\<close>

text \<open>
  Code that calls several commands in a row threads the world through them and stops at
  the first exception: an action takes the world and returns an exception or a value,
  with the world it left.
\<close>

type_synonym 'a action = "world \<Rightarrow> (exn + 'a) \<times> world"

definition ret :: "'a \<Rightarrow> 'a action" where
  "ret x w = (Inr x, w)"

definition raise :: "exn \<Rightarrow> 'a action" where
  "raise e w = (Inl e, w)"

definition and_then :: "'a action \<Rightarrow> ('a \<Rightarrow> 'b action) \<Rightarrow> 'b action" where
  "and_then m f w = (case m w of (Inl e, w') \<Rightarrow> (Inl e, w') | (Inr x, w') \<Rightarrow> f x w')"

definition info :: "string \<Rightarrow> unit action" where
  "info msg w = (Inr (), add_log INFO msg w)"

definition last_segment :: "string \<Rightarrow> string" where
  \<comment> \<open>\<^verbatim>\<open>s.split("/")[-1]\<close>\<close>
  "last_segment s = rev (takeWhile (\<lambda>c. c \<noteq> CHR ''/'') (rev s))"

definition mkdir_parents :: "path \<Rightarrow> unit action" where
  \<comment> \<open>\<^verbatim>\<open>p.mkdir(parents=True, exist_ok=True)\<close>\<close>
  "mkdir_parents p w =
     (Inr (), w\<lparr>exists_paths := exists_paths w \<union> set (map (\<lambda>k. take k p) [1..<Suc (length p)])\<rparr>)"

definition rmtree :: "path \<Rightarrow> world \<Rightarrow> world" where
  \<comment> \<open>\<^verbatim>\<open>shutil.rmtree(p)\<close>: the path and all that lies under it\<close>
  "rmtree p w = w\<lparr>exists_paths := {q \<in> exists_paths w. take (length p) q \<noteq> p}\<rparr>"

definition default_branch :: "config \<Rightarrow> system \<Rightarrow> (string \<Rightarrow> json option) \<Rightarrow> string \<Rightarrow> json action" where
  \<comment> \<open>\<^verbatim>\<open>git.get_default_branch\<close> as an action: it raises nothing\<close>
  "default_branch cfg sys loads repo_name w =
     (case get_default_branch cfg sys loads repo_name w of (v, w') \<Rightarrow> (Inr v, w'))"

definition setup_steps ::
  "config \<Rightarrow> system \<Rightarrow> (string \<Rightarrow> json option) \<Rightarrow> string \<Rightarrow> string \<Rightarrow> string \<Rightarrow> path
     \<Rightarrow> (string \<times> path option) action"
where
  \<comment> \<open>the \<^verbatim>\<open>try\<close> block of \<^verbatim>\<open>setup_plugin_repo\<close>. A default branch that is not a text cannot
      be passed to the \<^verbatim>\<open>fetch\<close> command: \<^verbatim>\<open>subprocess.run\<close> raises \<^verbatim>\<open>TypeError\<close>\<close>
  "setup_steps cfg sys loads url repo_name plugin_name local_path =
     (let org = YOUR_GITHUB_ORG cfg;
          dev = DEV_BRANCH cfg;
          root = PROJECT_ROOT cfg;
          fork_repo = org @ ''/'' @ plugin_name;
          clone_url = ''https://github.com/'' @ fork_repo @ ''.git''
      in
      and_then (gh cfg sys [''repo'', ''view'', fork_repo] root False True) (\<lambda>viewed.
      and_then (if viewed = []
                then and_then (info (''  - Forking '' @ repo_name @ ''...'')) (\<lambda>u.
                     gh cfg sys [''repo'', ''fork'', repo_name, ''--org='' @ org] root True False)
                else ret []) (\<lambda>forked.
      and_then (info (''  - Cloning '' @ fork_repo @ ''...'')) (\<lambda>u.
      and_then (mkdir_parents (PLUGINS_SRC_DIR cfg)) (\<lambda>u.
      and_then (git cfg sys [''clone'', clone_url, str_path local_path] root True False) (\<lambda>cloned.
      and_then (git cfg sys [''remote'', ''add'', ''upstream'', url] local_path False False) (\<lambda>added.
      and_then (info (''  - Setting up '' @ quoted dev @ '' branch...'')) (\<lambda>u.
      and_then (git cfg sys [''ls-remote'', ''--heads'', ''origin'', ''refs/heads/'' @ dev]
                  local_path False True) (\<lambda>remote_dev_exists.
      and_then (if remote_dev_exists \<noteq> []
                then git cfg sys [''checkout'', dev] local_path True False
                else and_then (default_branch cfg sys loads repo_name) (\<lambda>main_branch.
                       case main_branch of
                         JStr b \<Rightarrow>
                           and_then (git cfg sys [''fetch'', ''upstream'', b] local_path True True) (\<lambda>u.
                           and_then (git cfg sys [''checkout'', ''-b'', dev, ''upstream/'' @ b]
                                       local_path True False) (\<lambda>u.
                           git cfg sys [''push'', ''-u'', ''origin'', dev] local_path True False))
                       | _ \<Rightarrow> raise (TypeError ''expected str, bytes or os.PathLike object''))) (\<lambda>u.
      ret (''success'', Some local_path)))))))))))"

definition setup_plugin_repo ::
  "config \<Rightarrow> system \<Rightarrow> (string \<Rightarrow> json option) \<Rightarrow> string \<Rightarrow> (string \<times> path option) action"
where
  "setup_plugin_repo cfg sys loads url w =
     (case get_repo_name_from_url url of
        None \<Rightarrow> (Inr (''failed'', None), add_log ERROR (''  - Invalid GitHub URL: '' @ url) w)
      | Some repo_name \<Rightarrow>
          if repo_name = []
          then (Inr (''failed'', None), add_log ERROR (''  - Invalid GitHub URL: '' @ url) w)
          else
            let plugin_name = last_segment repo_name;
                local_path = PLUGINS_SRC_DIR cfg @ [plugin_name]
            in if local_path \<in> exists_paths w
               then (Inr (''exists'', Some local_path),
                     add_log INFO (''  - Plugin '' @ quoted plugin_name
                                   @ '' already exists locally.'') w)
               else
                 (case setup_steps cfg sys loads url repo_name plugin_name local_path
                         (add_log INFO (''--- Setting up new plugin: '' @ plugin_name @ '' ---'') w) of
                    (Inr r, w') \<Rightarrow> (Inr r, w')
                  | (Inl (CommandError m res), w') \<Rightarrow>
                      (let w'' = add_log ERROR (''  - Failed to set up '' @ plugin_name @ '': '' @ m) w'
                       in (Inr (''failed'', None),
                           if local_path \<in> exists_paths w'' then rmtree local_path w'' else w''))
                  | (Inl e, w') \<Rightarrow> (Inl e, w')))"

section \<open>nbm.py: ConcurrentCommand and a worker\<close>

text \<open>
  A worker returns a dictionary or raises. The dictionaries of the workers have text keys
  and texts or truth values as values; a dictionary is given by its items, and is true
  when it has one.
\<close>

datatype pyval = PyStr string | PyBool bool

type_synonym dict = "(string \<times> pyval) list"

datatype 'r outcome = Raised exn | Returned 'r

definition critical_msg :: "path \<Rightarrow> exn \<Rightarrow> string" where
  "critical_msg p exc = ''CRITICAL: Worker for '' @ name p @ '' failed: '' @ exn_str exc"

text \<open>
  \<^verbatim>\<open>ConcurrentCommand.execute\<close>. Every target path is submitted to the pool before any
  result is read, so every worker runs; \<open>worker p\<close> is what the worker of \<open>p\<close> ends with.
  \<^verbatim>\<open>as_completed\<close> hands the futures over in the order in which they finish: the list
  \<open>completed\<close>, some ordering of the target paths. \<open>collect\<close> is the body of the loop.
\<close>

definition collect ::
  "(path \<Rightarrow> dict outcome) \<Rightarrow> path \<Rightarrow> (string \<rightharpoonup> dict) \<times> log \<Rightarrow> (string \<rightharpoonup> dict) \<times> log"
where
  "collect worker p acc =
     (case worker p of
        Returned res \<Rightarrow> (if res \<noteq> [] then ((fst acc)(name p \<mapsto> res), snd acc) else acc)
      | Raised exc \<Rightarrow> (fst acc, snd acc @ [(ERROR, critical_msg p exc)]))"

definition execute ::
  "string \<Rightarrow> string \<Rightarrow> int \<Rightarrow> (path \<Rightarrow> dict outcome) \<Rightarrow> path list \<Rightarrow> path list
     \<Rightarrow> (string \<rightharpoonup> dict) \<times> log"
where
  \<comment> \<open>\<open>execute description scope MAX_WORKERS worker target_paths completed\<close>\<close>
  "execute description scope max_workers worker target_paths completed =
     (let banner = (INFO, description @ '' (Scope: '' @ scope @ '', Concurrency: ''
                            @ str_int max_workers @ '')'')
      in if target_paths = []
         then (Map.empty, [banner, (INFO, ''No Git repositories found in the specified scope.'')])
         else fold (collect worker) completed (Map.empty, [banner]))"

definition entry :: "(path \<Rightarrow> dict outcome) \<Rightarrow> path \<Rightarrow> dict option" where
  \<comment> \<open>what one finished worker contributes to the results: its dictionary when it returned
      a non-empty one, nothing otherwise\<close>
  "entry worker p =
     (case worker p of
        Returned res \<Rightarrow> (if res \<noteq> [] then Some res else None)
      | Raised exc \<Rightarrow> None)"

text \<open>\<^verbatim>\<open>git.is_workspace_dirty\<close> and \<^verbatim>\<open>CommitCommand.worker\<close>.\<close>

definition is_workspace_dirty :: "config \<Rightarrow> system \<Rightarrow> path \<Rightarrow> bool action" where
  "is_workspace_dirty cfg sys cwd =
     and_then (git cfg sys [''status'', ''--porcelain''] cwd True True) (\<lambda>status_output.
     ret (status_output \<noteq> []))"

definition commit_worker :: "config \<Rightarrow> system \<Rightarrow> string \<Rightarrow> string \<Rightarrow> path \<Rightarrow> dict action" where
  \<comment> \<open>\<open>commit_worker cfg sys message change_id path\<close>; the dirtiness check stands outside the
      \<^verbatim>\<open>try\<close>, so its \<^verbatim>\<open>CommandError\<close> leaves the worker\<close>
  "commit_worker cfg sys msg change_id p w =
     (case is_workspace_dirty cfg sys p w of
        (Inl e, w') \<Rightarrow> (Inl e, w')
      | (Inr dirty, w') \<Rightarrow>
          if \<not> dirty then (Inr [], w')
          else
            (let full_message = msg @ [CHR 0x0A, CHR 0x0A] @ ''Change-ID: '' @ change_id
             in case and_then (git cfg sys [''add'', ''.''] p True False) (\<lambda>u.
                     git cfg sys [''commit'', ''-m'', full_message] p True False) w' of
                  (Inr u, w'') \<Rightarrow>
                    (Inr [(''committed'', PyBool True)],
                     add_log INFO (''  - Committed changes in '' @ name p) w'')
                | (Inl (CommandError m r), w'') \<Rightarrow>
                    (Inr [(''committed'', PyBool False)],
                     add_log ERROR (''  - Failed to commit in '' @ name p @ '': '' @ m) w'')
                | (Inl e, w'') \<Rightarrow> (Inl e, w'')))"

definition outcome_in :: "world \<Rightarrow> 'r action \<Rightarrow> 'r outcome" where
  \<comment> \<open>what a worker started in a world ends with\<close>
  "outcome_in w act = (case act w of (Inl e, w') \<Rightarrow> Raised e | (Inr r, w') \<Rightarrow> Returned r)"

section \<open>nbm_core/project.py: manifests\<close>

text \<open>
  A parsed TOML document, as \<^verbatim>\<open>tomlkit.parse\<close> builds it: a table is a dictionary, given here
  by its items. \<^verbatim>\<open>str(item)\<close>, the text of an item, is a parameter \<open>str_of\<close> of the model;
  for a string item it is the string itself.
\<close>

datatype toml =
    TStr string
  | TInt int
  | TBool bool
  | TArr "toml list"
  | TTab "(string \<times> toml) list"

definition tget :: "toml \<Rightarrow> string \<Rightarrow> toml \<Rightarrow> exn + toml" where
  \<comment> \<open>\<^verbatim>\<open>d.get(key, default)\<close>; only a table has the method\<close>
  "tget d k dflt =
     (case d of
        TTab kvs \<Rightarrow> (case map_of kvs k of Some v \<Rightarrow> Inr v | None \<Rightarrow> Inr dflt)
      | _ \<Rightarrow> Inl (AttributeError ''object has no attribute 'get' ''))"

definition tget_opt :: "toml \<Rightarrow> string \<Rightarrow> exn + toml option" where
  \<comment> \<open>\<^verbatim>\<open>d.get(key)\<close>, with \<^verbatim>\<open>None\<close> for a missing key\<close>
  "tget_opt d k =
     (case d of
        TTab kvs \<Rightarrow> Inr (map_of kvs k)
      | _ \<Rightarrow> Inl (AttributeError ''object has no attribute 'get' ''))"

definition project_section :: "toml \<Rightarrow> exn + toml" where
  \<comment> \<open>\<^verbatim>\<open>data.get("project", data.get("tool", {}).get("poetry", {}))\<close>: the default is
      computed first, whether it is needed or not\<close>
  "project_section data =
     (case tget data ''tool'' (TTab []) of
        Inl e \<Rightarrow> Inl e
      | Inr tool \<Rightarrow>
          (case tget tool ''poetry'' (TTab []) of
             Inl e \<Rightarrow> Inl e
           | Inr poetry \<Rightarrow> tget data ''project'' poetry))"

text \<open>
  \<^verbatim>\<open>remove_dependency\<close>, step 1: the name to remove. The plugin's own
  \<^verbatim>\<open>pyproject.toml\<close> is absent (\<open>None\<close>), present but unreadable or unparsable
  (\<open>Some None\<close>), or parsed.
\<close>

definition package_to_remove ::
  "(toml \<Rightarrow> string) \<Rightarrow> string \<Rightarrow> toml option option \<Rightarrow> string \<times> log"
where
  "package_to_remove str_of pkg_name plugin_file =
     (let fallback =
            (replace_char CHR ''_'' CHR ''-'' pkg_name,
             [(WARNING, ''Could not parse package name. Falling back to folder name ''
                        @ quoted pkg_name @ ''.'')])
      in case plugin_file of
           None \<Rightarrow> (replace_char CHR ''_'' CHR ''-'' pkg_name, [])
         | Some None \<Rightarrow> fallback
         | Some (Some data) \<Rightarrow>
             (case project_section data of
                Inl e \<Rightarrow> fallback
              | Inr sec \<Rightarrow>
                  (case tget_opt sec ''name'' of
                     Inl e \<Rightarrow> fallback
                   | Inr found \<Rightarrow>
                       (let real_pkg_name = (case found of None \<Rightarrow> pkg_name | Some v \<Rightarrow> str_of v);
                            pkg_name_to_remove = replace_char CHR ''_'' CHR ''-'' real_pkg_name
                        in (pkg_name_to_remove,
                            [(INFO, ''Detected package name '' @ quoted pkg_name_to_remove
                                    @ '' from plugin's pyproject.toml.'')])))))"

text \<open>
  Step 3: the workspace members of the root manifest. The root \<^verbatim>\<open>pyproject.toml\<close> is
  unreadable or unparsable (\<open>None\<close>) or parsed; writing it back succeeds or raises
  \<^verbatim>\<open>OSError\<close>. The result is the document written, if one is, and the log.
\<close>

definition workspace_members :: "toml \<Rightarrow> exn + toml option" where
  \<comment> \<open>\<^verbatim>\<open>doc.get("tool", {}).get("uv", {}).get("workspace", {}).get("members")\<close>\<close>
  "workspace_members doc =
     (case tget doc ''tool'' (TTab []) of
        Inl e \<Rightarrow> Inl e
      | Inr tool \<Rightarrow>
          (case tget tool ''uv'' (TTab []) of
             Inl e \<Rightarrow> Inl e
           | Inr uvt \<Rightarrow>
               (case tget uvt ''workspace'' (TTab []) of
                  Inl e \<Rightarrow> Inl e
                | Inr workspace \<Rightarrow> tget_opt workspace ''members'')))"

fun upd :: "string \<Rightarrow> (toml \<Rightarrow> toml) \<Rightarrow> (string \<times> toml) list \<Rightarrow> (string \<times> toml) list" where
  "upd k f [] = []"
| "upd k f ((k', x) # kvs) = (if k' = k then (k', f x) # kvs else (k', x) # upd k f kvs)"

fun at_key :: "string \<Rightarrow> (toml \<Rightarrow> toml) \<Rightarrow> toml \<Rightarrow> toml" where
  "at_key k f (TTab kvs) = TTab (upd k f kvs)"
| "at_key k f other = other"

definition set_members :: "toml list \<Rightarrow> toml \<Rightarrow> toml" where
  \<comment> \<open>\<^verbatim>\<open>doc["tool"]["uv"]["workspace"]["members"] = new_members\<close>\<close>
  "set_members new_members doc =
     at_key ''tool'' (at_key ''uv'' (at_key ''workspace''
       (at_key ''members'' (\<lambda>old. TArr new_members)))) doc"

definition cleanup_warnings :: "exn \<Rightarrow> log" where
  "cleanup_warnings e =
     [(WARNING, ''Could not automatically clean up workspace members: '' @ exn_str e),
      (WARNING, ''   Please check your pyproject.toml manually.'')]"

definition workspace_cleanup ::
  "config \<Rightarrow> (toml \<Rightarrow> string) \<Rightarrow> string \<Rightarrow> toml option \<Rightarrow> bool \<Rightarrow> toml option \<times> log"
where
  "workspace_cleanup cfg str_of pkg_name root_file root_writable =
     (case root_file of
        None \<Rightarrow> (None, cleanup_warnings (OSError ''cannot read pyproject.toml''))
      | Some doc \<Rightarrow>
          (case workspace_members doc of
             Inl e \<Rightarrow> (None, cleanup_warnings e)
           | Inr members \<Rightarrow>
               (case members of
                  Some (TArr ms) \<Rightarrow>
                    if ms = [] then (None, [])
                    else
                      (let entry_to_remove = plugins_src_dir cfg @ ''/'' @ pkg_name;
                           new_members = filter (\<lambda>m. strip (str_of m) \<noteq> entry_to_remove) ms;
                           removed = list_ex (\<lambda>m. strip (str_of m) = entry_to_remove) ms
                       in if removed
                          then (if root_writable
                                then (Some (set_members new_members doc),
                                      [(INFO, ''Cleaned up '' @ quoted entry_to_remove
                                              @ '' from workspace members.'')])
                                else (None, cleanup_warnings (OSError ''cannot write pyproject.toml'')))
                          else (None, []))
                | _ \<Rightarrow> (None, []))))"

definition remove_dependency ::
  "config \<Rightarrow> system \<Rightarrow> (toml \<Rightarrow> string) \<Rightarrow> toml option option \<Rightarrow> toml option \<Rightarrow> bool \<Rightarrow> string
     \<Rightarrow> (bool \<times> toml option) action"
where
  \<comment> \<open>\<open>remove_dependency cfg sys str_of plugin_file root_file root_writable pkg_name\<close>: the
      truth value returned, with the root manifest written, if one is\<close>
  "remove_dependency cfg sys str_of plugin_file root_file root_writable pkg_name w =
     (let (pkg_name_to_remove, l1) = package_to_remove str_of pkg_name plugin_file;
          step3 = (\<lambda>w'. let (written, l3) =
                              workspace_cleanup cfg str_of pkg_name root_file root_writable
                          in (Inr (True, written), w'\<lparr>wlog := wlog w' @ l3\<rparr>))
      in case uv cfg sys [''remove'', pkg_name_to_remove] (PROJECT_ROOT cfg) True False
                (w\<lparr>wlog := wlog w @ l1\<rparr>) of
           (Inr res, w2) \<Rightarrow> step3 w2
         | (Inl (CommandError m r), w2) \<Rightarrow>
             if contains ''not found in dependencies'' m
             then step3 (add_log WARNING (''Dependency '' @ quoted pkg_name_to_remove
                                          @ '' not found in project dependencies.'') w2)
             else (Inr (False, None),
                   add_log ERROR (''Failed to remove dependency '' @ quoted pkg_name_to_remove
                                  @ [CHR '':'', CHR 0x0A] @ m) w2)
         | (Inl e, w2) \<Rightarrow> (Inl e, w2))"

section \<open>nbm_core/project.py: create_production_package\<close>

text \<open>
  Truth of an item in a condition, and the items that a \<^verbatim>\<open>for\<close> loop over an item visits:
  the elements of an array, the keys of a table, the characters of a string.
  \<^verbatim>\<open>isinstance(item, Table)\<close> is a parameter \<open>is_table\<close> of the model: which items of a
  document are instances of the library's \<^verbatim>\<open>Table\<close> class is the library's matter.
\<close>

fun toml_truthy :: "toml \<Rightarrow> bool" where
  "toml_truthy (TStr s) = (s \<noteq> [])"
| "toml_truthy (TInt n) = (n \<noteq> 0)"
| "toml_truthy (TBool b) = b"
| "toml_truthy (TArr xs) = (xs \<noteq> [])"
| "toml_truthy (TTab kvs) = (kvs \<noteq> [])"

fun iter_items :: "toml \<Rightarrow> exn + toml list" where
  "iter_items (TArr xs) = Inr xs"
| "iter_items (TTab kvs) = Inr (map (\<lambda>kv. TStr (fst kv)) kvs)"
| "iter_items (TStr s) = Inr (map (\<lambda>c. TStr [c]) s)"
| "iter_items other = Inl (TypeError ''object is not iterable'')"


definition get_package_name_from_plugin_dir ::
  "(toml \<Rightarrow> string) \<Rightarrow> toml option option \<Rightarrow> string option"
where
  \<comment> \<open>\<^verbatim>\<open>_get_package_name_from_plugin_dir\<close>, on the plugin's \<^verbatim>\<open>pyproject.toml\<close>: absent,
      unreadable or parsed; every exception ends in \<^verbatim>\<open>return None\<close>\<close>
  "get_package_name_from_plugin_dir str_of plugin_file =
     (case plugin_file of
        None \<Rightarrow> None
      | Some None \<Rightarrow> None
      | Some (Some data) \<Rightarrow>
          (case project_section data of
             Inl e \<Rightarrow> None
           | Inr sec \<Rightarrow>
               (case tget_opt sec ''name'' of
                  Inl e \<Rightarrow> None
                | Inr None \<Rightarrow> None
                | Inr (Some nm) \<Rightarrow> if toml_truthy nm then Some (str_of nm) else None)))"

text \<open>
  Step 1, the map from package names to repository names. A plugin directory, as the
  listing of \<^verbatim>\<open>PLUGINS_SRC_DIR\<close> gives it: its name, whether it is a directory, and its
  \<^verbatim>\<open>pyproject.toml\<close>. The inner loop runs once for every workspace member that is a string
  starting with the configured directory name.
\<close>

type_synonym plugin_dir = "string \<times> bool \<times> toml option option"

definition map_plugin_dir ::
  "(toml \<Rightarrow> string) \<Rightarrow> plugin_dir \<Rightarrow> (string \<rightharpoonup> string) \<Rightarrow> (string \<rightharpoonup> string)"
where
  "map_plugin_dir str_of d m =
     (case d of (repo_name, is_dir, plugin_file) \<Rightarrow>
        if \<not> is_dir then m
        else (case get_package_name_from_plugin_dir str_of plugin_file of
                None \<Rightarrow> m
              | Some pkg_name \<Rightarrow>
                  if pkg_name \<noteq> []
                  then m(replace_char CHR ''_'' CHR ''-'' pkg_name \<mapsto> repo_name)
                  else m))"

definition map_member ::
  "config \<Rightarrow> (toml \<Rightarrow> string) \<Rightarrow> plugin_dir list \<Rightarrow> toml \<Rightarrow> (string \<rightharpoonup> string)
     \<Rightarrow> (string \<rightharpoonup> string)"
where
  "map_member cfg str_of listing member_pattern m =
     (case member_pattern of
        TStr s \<Rightarrow> if startswith (plugins_src_dir cfg) s
                  then fold (map_plugin_dir str_of) listing m else m
      | _ \<Rightarrow> m)"

definition workspace_member_patterns :: "toml \<Rightarrow> exn + toml list" where
  \<comment> \<open>\<^verbatim>\<open>data.get("tool", {}).get("uv", {}).get("workspace", {}).get("members", [])\<close>, as the
      loop visits it\<close>
  "workspace_member_patterns data =
     (case tget data ''tool'' (TTab []) of
        Inl e \<Rightarrow> Inl e
      | Inr tool \<Rightarrow>
          (case tget tool ''uv'' (TTab []) of
             Inl e \<Rightarrow> Inl e
           | Inr uvt \<Rightarrow>
               (case tget uvt ''workspace'' (TTab []) of
                  Inl e \<Rightarrow> Inl e
                | Inr workspace \<Rightarrow>
                    (case tget workspace ''members'' (TArr []) of
                       Inl e \<Rightarrow> Inl e
                     | Inr members \<Rightarrow> iter_items members))))"

definition build_map ::
  "config \<Rightarrow> (toml \<Rightarrow> string) \<Rightarrow> plugin_dir list \<Rightarrow> toml \<Rightarrow> exn + (string \<rightharpoonup> string)"
where
  "build_map cfg str_of listing data =
     (case workspace_member_patterns data of
        Inl e \<Rightarrow> Inl e
      | Inr patterns \<Rightarrow> Inr (fold (map_member cfg str_of listing) patterns Map.empty))"



text \<open>
  The dependencies handed to \<^verbatim>\<open>process_dependency\<close>, in order, each with the name it is
  given: the items of a \<^verbatim>\<open>dependencies\<close> table under their keys, the elements of a
  \<^verbatim>\<open>dependencies\<close> array and of every array among the \<^verbatim>\<open>optional-dependencies\<close> groups
  under the text before their first \<^verbatim>\<open>" @ "\<close>.
\<close>

definition named_item :: "(toml \<Rightarrow> string) \<Rightarrow> toml \<Rightarrow> string \<times> toml" where
  "named_item str_of item = (split_first '' @ '' (str_of item), item)"

definition main_entries :: "(toml \<Rightarrow> string) \<Rightarrow> (toml \<Rightarrow> bool) \<Rightarrow> toml \<Rightarrow> (string \<times> toml) list" where
  \<comment> \<open>the section is a table here\<close>
  "main_entries str_of is_table sec =
     (case sec of
        TTab kvs \<Rightarrow>
          (case map_of kvs ''dependencies'' of
             None \<Rightarrow> []
           | Some dependencies \<Rightarrow>
               if is_table dependencies
               then (case dependencies of TTab items \<Rightarrow> items | _ \<Rightarrow> [])
               else (case dependencies of
                       TArr items \<Rightarrow> map (named_item str_of) items
                     | _ \<Rightarrow> []))
      | _ \<Rightarrow> [])"

definition group_entries :: "(toml \<Rightarrow> string) \<Rightarrow> toml \<Rightarrow> (string \<times> toml) list" where
  "group_entries str_of grp =
     (case grp of TArr items \<Rightarrow> map (named_item str_of) items | _ \<Rightarrow> [])"

definition optional_entries :: "(toml \<Rightarrow> string) \<Rightarrow> (toml \<Rightarrow> bool) \<Rightarrow> toml \<Rightarrow> (string \<times> toml) list" where
  "optional_entries str_of is_table sec =
     (case sec of
        TTab kvs \<Rightarrow>
          (case map_of kvs ''optional-dependencies'' of
             None \<Rightarrow> []
           | Some optional_deps_section \<Rightarrow>
               if is_table optional_deps_section
               then (case optional_deps_section of
                       TTab groups \<Rightarrow> concat (map (\<lambda>g. group_entries str_of (snd g)) groups)
                     | _ \<Rightarrow> [])
               else [])
      | _ \<Rightarrow> [])"

definition dependency_entries ::
  "(toml \<Rightarrow> string) \<Rightarrow> (toml \<Rightarrow> bool) \<Rightarrow> toml \<Rightarrow> exn + (string \<times> toml) list"
where
  \<comment> \<open>a project section that is not a table has no \<^verbatim>\<open>get\<close>: the code raises\<close>
  "dependency_entries str_of is_table data =
     (case project_section data of
        Inl e \<Rightarrow> Inl e
      | Inr sec \<Rightarrow>
          (case sec of
             TTab kvs \<Rightarrow> Inr (main_entries str_of is_table sec @ optional_entries str_of is_table sec)
           | _ \<Rightarrow> Inl (AttributeError ''object has no attribute 'get' '')))"



section \<open>Concrete environments\<close>

text \<open>A configuration, a world and systems on which the definitions are evaluated.\<close>

definition example_config :: config where
  "example_config =
     \<lparr>PROJECT_ROOT = [''w''], PLUGINS_SRC_DIR = [''w'', ''plugins''],
      plugins_src_dir = ''plugins'', YOUR_GITHUB_ORG = ''my-bot-workspace'',
      DEV_BRANCH = ''dev'', COMMAND_TIMEOUT = 1200\<rparr>"

definition empty_world :: world where
  "empty_world = \<lparr>exists_paths = {[''w'']}, trace = [], wlog = []\<rparr>"

definition failing_system :: system where
  \<comment> \<open>every command exits with code 1, nothing on standard output, a complaint on standard
      error, and changes nothing\<close>
  "failing_system cmd cwd fs = (Exited 1 [] ''HTTP 401: Bad credentials'', fs)"

definition hosting_answer :: string where
  \<open>hosting_answer = ''{"defaultBranchRef":{"name":"master"}}''\<close>

definition example_loads :: "string \<Rightarrow> json option" where
  \<comment> \<open>\<^verbatim>\<open>json.loads\<close> on the one document that the working system prints\<close>
  "example_loads s =
     (if s = hosting_answer
      then Some (JObj [(''defaultBranchRef'', JObj [(''name'', JStr ''master'')])])
      else None)"

definition working_system :: system where
  \<comment> \<open>every command succeeds; the query for the default branch prints its document, every
      other command prints nothing; cloning creates the directory \<^verbatim>\<open>/w/plugins/foo\<close>\<close>
  "working_system cmd cwd fs =
     (if cmd = [''gh'', ''repo'', ''view'', ''acme/foo'', ''--json'', ''defaultBranchRef'']
      then (Exited 0 hosting_answer [], fs)
      else if take 2 cmd = [''git'', ''clone'']
      then (Exited 0 [] [], insert [''w'', ''plugins'', ''foo''] fs)
      else (Exited 0 [] [], fs))"

definition batch_system :: system where
  \<comment> \<open>the directory \<^verbatim>\<open>bar\<close> is not a repository; everywhere else the status reports one
      modified file and every command succeeds\<close>
  "batch_system cmd cwd fs =
     (if name cwd = ''bar'' then (Exited 128 [] ''fatal: not a git repository'', fs)
      else if cmd = [''git'', ''status'', ''--porcelain''] then (Exited 0 '' M bot.py'' [], fs)
      else (Exited 0 [] [], fs))"

definition five_repos :: "path list" where
  "five_repos = [[''w''], [''w'', ''plugins'', ''bar''], [''w'', ''plugins'', ''baz''],
                 [''w'', ''plugins'', ''foo''], [''w'', ''plugins'', ''qux'']]"

definition example_str :: "toml \<Rightarrow> string" where
  "example_str item = (case item of TStr s \<Rightarrow> s | TInt n \<Rightarrow> str_int n | _ \<Rightarrow> ''?'')"

definition root_manifest :: toml where
  "root_manifest =
     TTab [(''project'', TTab [(''name'', TStr ''bot'')]),
           (''tool'', TTab [(''uv'', TTab [(''workspace'',
              TTab [(''members'', TArr [TStr ''plugins/foo'', TStr ''plugins/baz''])])])])]"

definition broken_uv_system :: system where
  \<comment> \<open>the dependency tool stops with an error of its own\<close>
  "broken_uv_system cmd cwd fs = (Exited 2 [] ''error: Failed to parse pyproject.toml'', fs)"

definition not_found_system :: system where
  \<comment> \<open>the dependency tool does not know the package\<close>
  "not_found_system cmd cwd fs =
     (Exited 2 [] ''error: package foo not found in dependencies'', fs)"

definition example_manifest :: toml where
  "example_manifest =
     TTab [(''project'', TTab [(''name'', TStr ''bot''),
              (''dependencies'', TArr [TStr ''my_plugin @ file:///w/plugins/foo'',
                                       TStr ''fastapi>=0.100'',
                                       TStr ''ghost @ file:///w/plugins/ghost''])]),
           (''tool'', TTab [(''uv'', TTab [(''workspace'',
              TTab [(''members'', TArr [TStr ''plugins/*''])])])])]"

definition example_listing :: "plugin_dir list" where
  "example_listing =
     [(''foo'', True, Some (Some (TTab [(''project'', TTab [(''name'', TStr ''my-plugin'')])]))),
      (''README.md'', False, None)]"

definition no_table :: "toml \<Rightarrow> bool" where
  \<comment> \<open>a document none of whose items is a \<^verbatim>\<open>Table\<close>\<close>
  "no_table item = False"

section \<open>The hosted name of a URL\<close>

lemma startswith_iff: "startswith p s \<longleftrightarrow> (\<exists>t. s = p @ t)"
  by (induction p s rule: startswith.induct) auto

lemma at_dollar_iff: "at_dollar s \<longleftrightarrow> s = [] \<or> s = [CHR 0x0A]"
  by (simp add: at_dollar_def)

lemma git_dollar_iff:
  "git_dollar s \<longleftrightarrow> s = [] \<or> s = [CHR 0x0A] \<or> s = ''.git'' \<or> s = ''.git'' @ [CHR 0x0A]"
  unfolding git_dollar_def at_dollar_def startswith_iff by auto

lemma repo_lazy_sound:
  "repo_lazy acc rest = Some r \<Longrightarrow>
     \<exists>mid suf. r = acc @ mid \<and> rest = mid @ suf \<and> git_dollar suf \<and> CHR ''/'' \<notin> set mid
        \<and> (\<forall>k < length mid. \<not> git_dollar (drop k rest))"
proof (induction rest arbitrary: acc)
  case Nil
  then show ?case by (auto split: if_splits)
next
  case (Cons c cs)
  show ?case
  proof (cases "git_dollar (c # cs)")
    case True
    with Cons.prems have "r = acc" by simp
    with True show ?thesis by (intro exI [of _ "[]"] exI [of _ "c # cs"]) simp
  next
    case False
    with Cons.prems have c: "c \<noteq> CHR ''/''" and rec: "repo_lazy (acc @ [c]) cs = Some r"
      by (auto split: if_splits)
    from Cons.IH [OF rec] obtain mid suf where m: "r = (acc @ [c]) @ mid" "cs = mid @ suf"
      "git_dollar suf" "CHR ''/'' \<notin> set mid" "\<forall>k < length mid. \<not> git_dollar (drop k cs)"
      by blast
    have "\<forall>k < length (c # mid). \<not> git_dollar (drop k (c # cs))"
    proof (intro allI impI)
      fix k assume k: "k < length (c # mid)"
      show "\<not> git_dollar (drop k (c # cs))"
      proof (cases k)
        case 0 with False show ?thesis by simp
      next
        case (Suc j) with k m(5) show ?thesis by simp
      qed
    qed
    with m c show ?thesis
      by (intro exI [of _ "c # mid"] exI [of _ suf]) simp
  qed
qed

lemma repo_lazy_complete:
  "CHR ''/'' \<notin> set rest \<Longrightarrow> \<exists>r. repo_lazy acc rest = Some r"
  by (induction rest arbitrary: acc) (auto simp: git_dollar_iff)

lemma re_search_sound:
  "re_search url = Some r \<Longrightarrow> \<exists>pre s. url = pre @ s \<and> match_at s = Some r"
proof (induction url)
  case Nil
  then show ?case by simp
next
  case (Cons c cs)
  show ?case
  proof (cases "match_at (c # cs)")
    case None
    with Cons.prems have "re_search cs = Some r" by simp
    from Cons.IH [OF this] obtain pre s where "cs = pre @ s" "match_at s = Some r" by blast
    then show ?thesis by (intro exI [of _ "c # pre"] exI [of _ s]) simp
  next
    case (Some g)
    with Cons.prems have "g = r" by simp
    with Some show ?thesis by (intro exI [of _ "[]"] exI [of _ "c # cs"]) simp
  qed
qed

lemma re_search_complete:
  "match_at s \<noteq> None \<Longrightarrow> re_search (pre @ s) \<noteq> None"
proof (induction pre)
  case Nil
  then show ?case by (cases s) auto
next
  case (Cons c pre)
  then show ?case by (auto split: option.splits)
qed


lemma match_repo_sound:
  assumes "match_repo t = Some repo"
  shows "\<exists>suf. t = repo @ suf \<and> repo \<noteq> [] \<and> CHR ''/'' \<notin> set repo \<and> git_dollar suf
           \<and> (\<forall>k. 0 < k \<and> k < length repo \<longrightarrow> \<not> git_dollar (drop k t))"
proof -
  from assms obtain c cs where t: "t = c # cs" and c: "c \<noteq> CHR ''/''"
    and rl: "repo_lazy [c] cs = Some repo"
    by (auto simp: match_repo_def split: list.splits if_splits)
  from repo_lazy_sound [OF rl] obtain mid suf where m: "repo = [c] @ mid" "cs = mid @ suf"
    "git_dollar suf" "CHR ''/'' \<notin> set mid" "\<forall>k < length mid. \<not> git_dollar (drop k cs)"
    by blast
  have "\<forall>k. 0 < k \<and> k < length repo \<longrightarrow> \<not> git_dollar (drop k t)"
  proof (intro allI impI)
    fix k assume k: "0 < k \<and> k < length repo"
    then obtain j where "k = Suc j" by (cases k) auto
    with k m(1,5) t show "\<not> git_dollar (drop k t)" by simp
  qed
  with m t c show ?thesis by (intro exI [of _ suf]) simp
qed

lemma match_repo_complete:
  "t \<noteq> [] \<Longrightarrow> CHR ''/'' \<notin> set t \<Longrightarrow> \<exists>r. match_repo t = Some r"
proof -
  assume a: "t \<noteq> []" "CHR ''/'' \<notin> set t"
  then obtain c cs where t: "t = c # cs" by (cases t) auto
  with a have "CHR ''/'' \<notin> set cs" "c \<noteq> CHR ''/''" by auto
  with repo_lazy_complete [of cs "[c]"] t show ?thesis
    by (simp add: match_repo_def)
qed

lemma match_group1_sound:
  assumes "match_group1 s = Some r"
  shows "\<exists>owner repo suf. s = owner @ ''/'' @ repo @ suf \<and> r = owner @ ''/'' @ repo
           \<and> owner \<noteq> [] \<and> CHR ''/'' \<notin> set owner
           \<and> repo \<noteq> [] \<and> CHR ''/'' \<notin> set repo \<and> git_dollar suf
           \<and> (\<forall>k. 0 < k \<and> k < length repo \<longrightarrow> \<not> git_dollar (drop k (repo @ suf)))"
proof -
  let ?P = "\<lambda>c. c \<noteq> CHR ''/''"
  from assms obtain slash t repo where o: "takeWhile ?P s \<noteq> []"
    and d: "dropWhile ?P s = slash # t" and mr: "match_repo t = Some repo"
    and r: "r = takeWhile ?P s @ [slash] @ repo"
    by (auto simp: match_group1_def Let_def split: if_splits list.splits option.splits)
  have sl: "slash = CHR ''/''"
    using hd_dropWhile [of ?P s] d by simp
  have s: "takeWhile ?P s @ slash # t = s"
    using d takeWhile_dropWhile_id [of ?P s] by simp
  have no: "CHR ''/'' \<notin> set (takeWhile ?P s)"
    by (auto dest: set_takeWhileD)
  from match_repo_sound [OF mr] obtain suf where m: "t = repo @ suf" "repo \<noteq> []"
    "CHR ''/'' \<notin> set repo" "git_dollar suf"
    "\<forall>k. 0 < k \<and> k < length repo \<longrightarrow> \<not> git_dollar (drop k t)"
    by blast
  have "takeWhile ?P s @ slash # t = takeWhile ?P s @ ''/'' @ repo @ suf"
    using sl m(1) by simp
  with s have s': "s = takeWhile ?P s @ ''/'' @ repo @ suf" by (rule subst)
  from r sl have r': "r = takeWhile ?P s @ ''/'' @ repo" by simp
  from m(5) m(1) have mn: "\<forall>k. 0 < k \<and> k < length repo \<longrightarrow> \<not> git_dollar (drop k (repo @ suf))"
    by simp
  from s' r' o no m(2,3,4) mn show ?thesis by blast
qed

lemma match_group1_complete:
  assumes "owner \<noteq> []" "CHR ''/'' \<notin> set owner" "t \<noteq> []" "CHR ''/'' \<notin> set t"
  shows "\<exists>r. match_group1 (owner @ ''/'' @ t) = Some r"
proof -
  let ?P = "\<lambda>c. c \<noteq> CHR ''/''"
  have tw: "takeWhile ?P (owner @ ''/'' @ t) = owner"
    using assms(2) by (induction owner) auto
  have dw: "dropWhile ?P (owner @ ''/'' @ t) = ''/'' @ t"
    using assms(2) by (induction owner) auto
  from match_repo_complete [OF assms(3,4)] obtain r where "match_repo t = Some r" by blast
  with tw dw assms(1) show ?thesis
    by (simp add: match_group1_def Let_def)
qed

lemma match_at_sound:
  assumes "match_at s = Some r"
  shows "\<exists>sep owner repo suf. s = ''github.com'' @ [sep] @ owner @ ''/'' @ repo @ suf
           \<and> r = owner @ ''/'' @ repo \<and> (sep = CHR ''/'' \<or> sep = CHR '':'')
           \<and> owner \<noteq> [] \<and> CHR ''/'' \<notin> set owner
           \<and> repo \<noteq> [] \<and> CHR ''/'' \<notin> set repo \<and> git_dollar suf
           \<and> (\<forall>k. 0 < k \<and> k < length repo \<longrightarrow> \<not> git_dollar (drop k (repo @ suf)))"
proof -
  from assms have sw: "startswith ''github.com'' s"
    by (auto simp: match_at_def split: if_splits)
  then obtain u where u: "s = ''github.com'' @ u" by (auto simp: startswith_iff)
  then have du: "drop 10 s = u" by simp
  from assms sw du obtain sep t where t: "u = sep # t" and sep: "sep = CHR ''/'' \<or> sep = CHR '':''"
    and g: "match_group1 t = Some r"
    by (auto simp: match_at_def split: if_splits list.splits)
  from match_group1_sound [OF g] obtain owner repo suf where
    "t = owner @ ''/'' @ repo @ suf \<and> r = owner @ ''/'' @ repo
           \<and> owner \<noteq> [] \<and> CHR ''/'' \<notin> set owner
           \<and> repo \<noteq> [] \<and> CHR ''/'' \<notin> set repo \<and> git_dollar suf
           \<and> (\<forall>k. 0 < k \<and> k < length repo \<longrightarrow> \<not> git_dollar (drop k (repo @ suf)))"
    by blast
  with u t sep show ?thesis
    by (intro exI [of _ sep] exI [of _ owner] exI [of _ repo] exI [of _ suf]) simp
qed

lemma match_at_complete:
  assumes "sep = CHR ''/'' \<or> sep = CHR '':''"
    "owner \<noteq> []" "CHR ''/'' \<notin> set owner" "t \<noteq> []" "CHR ''/'' \<notin> set t"
  shows "match_at (''github.com'' @ [sep] @ owner @ ''/'' @ t) \<noteq> None"
proof -
  from match_group1_complete [OF assms(2-5)] obtain r
    where "match_group1 (owner @ ''/'' @ t) = Some r" by blast
  with assms(1) show ?thesis by (auto simp: match_at_def)
qed


lemma endswith_iff: "endswith suf s \<longleftrightarrow> (\<exists>q. s = q @ suf)"
proof
  assume "endswith suf s"
  then obtain t where "rev s = rev suf @ t" by (auto simp: endswith_def startswith_iff)
  then have "rev (rev s) = rev (rev suf @ t)" by simp
  then have "s = rev t @ suf" by simp
  then show "\<exists>q. s = q @ suf" by blast
next
  assume "\<exists>q. s = q @ suf"
  then show "endswith suf s" by (auto simp: endswith_def startswith_iff)
qed

lemma lazy_keeps_git_only_when_bare:
  assumes min: "\<forall>k. 0 < k \<and> k < length repo \<longrightarrow> \<not> git_dollar (drop k (repo @ suf))"
    and e: "endswith ''.git'' repo" and s: "suf = [] \<or> suf = [CHR 0x0A]"
  shows "repo = ''.git''"
proof -
  from e obtain q where q: "repo = q @ ''.git''" by (auto simp: endswith_iff)
  show ?thesis
  proof (cases "q = []")
    case True
    with q show ?thesis by simp
  next
    case False
    then have "0 < length q \<and> length q < length repo" using q by simp
    with min have "\<not> git_dollar (drop (length q) (repo @ suf))" by blast
    moreover have "drop (length q) (repo @ suf) = ''.git'' @ suf" using q by simp
    ultimately have "\<not> git_dollar (''.git'' @ suf)" by simp
    with s show ?thesis by (auto simp: git_dollar_iff)
  qed
qed

lemma re_search_leftmost:
  "re_search url = Some r \<Longrightarrow>
     \<exists>pre s. url = pre @ s \<and> match_at s = Some r
        \<and> (\<forall>pre' s'. url = pre' @ s' \<and> length pre' < length pre \<longrightarrow> match_at s' = None)"
proof (induction url)
  case Nil
  then show ?case by simp
next
  case (Cons c cs)
  show ?case
  proof (cases "match_at (c # cs)")
    case (Some g)
    with Cons.prems have "g = r" by simp
    with Some have "c # cs = [] @ (c # cs) \<and> match_at (c # cs) = Some r
        \<and> (\<forall>pre' s'. c # cs = pre' @ s' \<and> length pre' < length ([]::string) \<longrightarrow> match_at s' = None)"
      by simp
    then show ?thesis by blast
  next
    case None
    with Cons.prems have "re_search cs = Some r" by simp
    from Cons.IH [OF this] obtain pre s where p: "cs = pre @ s" "match_at s = Some r"
      and l: "\<forall>pre' s'. cs = pre' @ s' \<and> length pre' < length pre \<longrightarrow> match_at s' = None"
      by blast
    have "\<forall>pre' s'. c # cs = pre' @ s' \<and> length pre' < length (c # pre) \<longrightarrow> match_at s' = None"
    proof (intro allI impI)
      fix pre' s' assume a: "c # cs = pre' @ s' \<and> length pre' < length (c # pre)"
      show "match_at s' = None"
      proof (cases pre')
        case Nil
        with a None show ?thesis by simp
      next
        case (Cons x xs)
        with a have "cs = xs @ s'" "length xs < length pre" by auto
        with l show ?thesis by blast
      qed
    qed
    with p have "c # cs = (c # pre) @ s \<and> match_at s = Some r
        \<and> (\<forall>pre' s'. c # cs = pre' @ s' \<and> length pre' < length (c # pre) \<longrightarrow> match_at s' = None)"
      by simp
    then show ?thesis by blast
  qed
qed

lemma slash_free_prefix_unique:
  assumes "a @ CHR ''/'' # x = b @ CHR ''/'' # y" "CHR ''/'' \<notin> set a" "CHR ''/'' \<notin> set b"
  shows "a = b \<and> x = y"
  using assms
proof (induction a arbitrary: b)
  case Nil
  then show ?case by (cases b) auto
next
  case (Cons c a)
  then show ?case by (cases b) auto
qed

lemma same_length_prefix:
  assumes "p @ s = q @ t" "length p = length q"
  shows "p = q \<and> s = t"
  using assms by simp

lemma git_dollar_slash_free: "git_dollar suf \<Longrightarrow> CHR ''/'' \<notin> set suf"
  by (auto simp: git_dollar_iff)

lemma match_at_None_iff:
  "match_at s = None \<longleftrightarrow>
     \<not> (\<exists>sep owner tail. s = ''github.com'' @ [sep] @ owner @ ''/'' @ tail
           \<and> (sep = CHR ''/'' \<or> sep = CHR '':'')
           \<and> owner \<noteq> [] \<and> CHR ''/'' \<notin> set owner \<and> tail \<noteq> [] \<and> CHR ''/'' \<notin> set tail)"
  (is "?L \<longleftrightarrow> \<not> ?D")
proof
  assume ?L
  show "\<not> ?D"
  proof
    assume ?D
    then obtain sep owner tail where "s = ''github.com'' @ [sep] @ owner @ ''/'' @ tail"
      and c: "sep = CHR ''/'' \<or> sep = CHR '':''" "owner \<noteq> []" "CHR ''/'' \<notin> set owner"
             "tail \<noteq> []" "CHR ''/'' \<notin> set tail"
      by blast
    with match_at_complete [OF c] \<open>?L\<close> show False by simp
  qed
next
  assume nd: "\<not> ?D"
  show ?L
  proof (rule ccontr)
    assume "\<not> ?L"
    then obtain r where "match_at s = Some r" by auto
    from match_at_sound [OF this] obtain sep owner repo suf where
      d: "s = ''github.com'' @ [sep] @ owner @ ''/'' @ repo @ suf"
         "sep = CHR ''/'' \<or> sep = CHR '':''" "owner \<noteq> []" "CHR ''/'' \<notin> set owner"
         "repo \<noteq> []" "CHR ''/'' \<notin> set repo" "git_dollar suf"
      by blast
    from d(5-7) have t: "repo @ suf \<noteq> []" "CHR ''/'' \<notin> set (repo @ suf)"
      by (auto dest: git_dollar_slash_free)
    from d(1) have "s = ''github.com'' @ [sep] @ owner @ ''/'' @ (repo @ suf)" by simp
    with d(2-4) t have ?D by blast
    with nd show False by blast
  qed
qed

lemma shortest_unique:
  assumes e: "repo @ suf = repo' @ suf'"
    and g: "git_dollar suf" "git_dollar suf'"
    and n: "repo \<noteq> []" "repo' \<noteq> []"
    and m: "\<forall>k. 0 < k \<and> k < length repo \<longrightarrow> \<not> git_dollar (drop k (repo @ suf))"
    and m': "\<forall>k. 0 < k \<and> k < length repo' \<longrightarrow> \<not> git_dollar (drop k (repo' @ suf'))"
  shows "repo = repo'"
proof -
  have "\<not> length repo < length repo'"
  proof
    assume l: "length repo < length repo'"
    with n m' have "\<not> git_dollar (drop (length repo) (repo' @ suf'))" by simp
    moreover have "drop (length repo) (repo' @ suf') = suf" using e [symmetric] by simp
    ultimately show False using g by simp
  qed
  moreover have "\<not> length repo' < length repo"
  proof
    assume l: "length repo' < length repo"
    with n m have "\<not> git_dollar (drop (length repo') (repo @ suf))" by simp
    moreover have "drop (length repo') (repo @ suf) = suf'" using e by simp
    ultimately show False using g by simp
  qed
  ultimately have "length repo = length repo'" by simp
  with e show ?thesis by simp
qed

lemma match_at_Some_iff:
  "match_at s = Some r \<longleftrightarrow>
     (\<exists>sep owner repo suf. s = ''github.com'' @ [sep] @ owner @ ''/'' @ repo @ suf
           \<and> r = owner @ ''/'' @ repo \<and> (sep = CHR ''/'' \<or> sep = CHR '':'')
           \<and> owner \<noteq> [] \<and> CHR ''/'' \<notin> set owner
           \<and> repo \<noteq> [] \<and> CHR ''/'' \<notin> set repo \<and> git_dollar suf
           \<and> (\<forall>k. 0 < k \<and> k < length repo \<longrightarrow> \<not> git_dollar (drop k (repo @ suf))))"
  (is "?L \<longleftrightarrow> ?R")
proof
  assume ?L
  then show ?R by (rule match_at_sound)
next
  assume ?R
  then obtain sep owner repo suf where
    d: "s = ''github.com'' @ [sep] @ owner @ ''/'' @ repo @ suf"
       "r = owner @ ''/'' @ repo"
       "sep = CHR ''/'' \<or> sep = CHR '':''" "owner \<noteq> []" "CHR ''/'' \<notin> set owner"
       "repo \<noteq> []" "CHR ''/'' \<notin> set repo" "git_dollar suf"
       "\<forall>k. 0 < k \<and> k < length repo \<longrightarrow> \<not> git_dollar (drop k (repo @ suf))"
    by blast
  from d(6-8) have t: "repo @ suf \<noteq> []" "CHR ''/'' \<notin> set (repo @ suf)"
    by (auto dest: git_dollar_slash_free)
  from match_at_complete [OF d(3-5) t] d(1) obtain r' where r': "match_at s = Some r'" by auto
  from match_at_sound [OF r'] obtain sep' owner' repo' suf' where
    d': "s = ''github.com'' @ [sep'] @ owner' @ ''/'' @ repo' @ suf'"
       "r' = owner' @ ''/'' @ repo'"
       "CHR ''/'' \<notin> set owner'" "repo' \<noteq> []" "git_dollar suf'"
       "\<forall>k. 0 < k \<and> k < length repo' \<longrightarrow> \<not> git_dollar (drop k (repo' @ suf'))"
    by blast
  from d(1) d'(1) have "owner @ CHR ''/'' # (repo @ suf) = owner' @ CHR ''/'' # (repo' @ suf')"
    by simp
  from slash_free_prefix_unique [OF this d(5) d'(3)]
  have o: "owner = owner'" and e: "repo @ suf = repo' @ suf'" by simp_all
  from shortest_unique [OF e d(8) d'(5) d(6) d'(4) d(9) d'(6)] have "repo = repo'" .
  with o d(2) d'(2) r' show ?L by simp
qed

lemma re_search_Some_iff:
  "re_search url = Some r \<longleftrightarrow>
     (\<exists>pre s. url = pre @ s \<and> match_at s = Some r
        \<and> (\<forall>pre' s'. url = pre' @ s' \<and> length pre' < length pre \<longrightarrow> match_at s' = None))"
  (is "?L \<longleftrightarrow> ?R")
proof
  assume ?L
  then show ?R by (rule re_search_leftmost)
next
  assume ?R
  then obtain pre s where p: "url = pre @ s" "match_at s = Some r"
    and l: "\<forall>pre' s'. url = pre' @ s' \<and> length pre' < length pre \<longrightarrow> match_at s' = None"
    by blast
  from p have "re_search url \<noteq> None" using re_search_complete [of s pre] by simp
  then obtain r' where r': "re_search url = Some r'" by auto
  from re_search_leftmost [OF r'] obtain pre2 s2 where p2: "url = pre2 @ s2" "match_at s2 = Some r'"
    and l2: "\<forall>pre' s'. url = pre' @ s' \<and> length pre' < length pre2 \<longrightarrow> match_at s' = None"
    by blast
  have "\<not> length pre2 < length pre" using l p2 by auto
  moreover have "\<not> length pre < length pre2" using l2 p by auto
  ultimately have "length pre = length pre2" by simp
  with p(1) p2(1) have "s = s2" by simp
  with p(2) p2(2) r' show ?L by simp
qed

text \<open>
  C9 (amended). The lookup returns nothing exactly when the text holds no \<^verbatim>\<open>github.com\<close>
  followed by a slash or a colon, a non-empty owner without slash, a slash and a non-empty
  rest without slash up to the end. It returns \<open>r\<close> exactly when \<open>r\<close> is \<open>owner/repo\<close>, both
  segments non-empty and free of slashes, where the text is some \<open>pre\<close>, \<^verbatim>\<open>github.com\<close>, a
  slash or a colon, \<open>owner/repo\<close> and an ending that is nothing, one newline, \<^verbatim>\<open>.git\<close>, or
  \<^verbatim>\<open>.git\<close> and one newline; the repo segment is the shortest possible one (no shorter
  non-empty beginning of it is followed by one of these four endings); and the occurrence
  is the leftmost one (no such occurrence starts earlier in the text). In particular,
  when the repo segment still ends in \<^verbatim>\<open>.git\<close> and nothing but a newline follows it, it is
  \<^verbatim>\<open>.git\<close> itself.
\<close>

theorem C9_get_repo_name_from_url:
  "(get_repo_name_from_url url = None \<longleftrightarrow>
      \<not> (\<exists>pre sep owner tail.
            url = pre @ ''github.com'' @ [sep] @ owner @ ''/'' @ tail
            \<and> (sep = CHR ''/'' \<or> sep = CHR '':'')
            \<and> owner \<noteq> [] \<and> CHR ''/'' \<notin> set owner \<and> tail \<noteq> [] \<and> CHR ''/'' \<notin> set tail))
   \<and> (\<forall>r. get_repo_name_from_url url = Some r \<longleftrightarrow>
         (\<exists>pre sep owner repo suf.
            url = pre @ ''github.com'' @ [sep] @ owner @ ''/'' @ repo @ suf
            \<and> r = owner @ ''/'' @ repo
            \<and> (sep = CHR ''/'' \<or> sep = CHR '':'')
            \<and> owner \<noteq> [] \<and> CHR ''/'' \<notin> set owner \<and> repo \<noteq> [] \<and> CHR ''/'' \<notin> set repo
            \<and> (suf = [] \<or> suf = [CHR 0x0A] \<or> suf = ''.git'' \<or> suf = ''.git'' @ [CHR 0x0A])
            \<and> (\<forall>k. 0 < k \<and> k < length repo \<longrightarrow>
                  drop k (repo @ suf) \<noteq> [] \<and> drop k (repo @ suf) \<noteq> [CHR 0x0A]
                  \<and> drop k (repo @ suf) \<noteq> ''.git''
                  \<and> drop k (repo @ suf) \<noteq> ''.git'' @ [CHR 0x0A])
            \<and> (\<forall>pre' sep' owner' tail'.
                  url = pre' @ ''github.com'' @ [sep'] @ owner' @ ''/'' @ tail'
                  \<and> (sep' = CHR ''/'' \<or> sep' = CHR '':'')
                  \<and> owner' \<noteq> [] \<and> CHR ''/'' \<notin> set owner'
                  \<and> tail' \<noteq> [] \<and> CHR ''/'' \<notin> set tail' \<longrightarrow> length pre \<le> length pre')
            \<and> (endswith ''.git'' repo \<and> (suf = [] \<or> suf = [CHR 0x0A]) \<longrightarrow> repo = ''.git'')))"
proof (intro conjI allI)
  show "get_repo_name_from_url url = None \<longleftrightarrow>
      \<not> (\<exists>pre sep owner tail.
            url = pre @ ''github.com'' @ [sep] @ owner @ ''/'' @ tail
            \<and> (sep = CHR ''/'' \<or> sep = CHR '':'')
            \<and> owner \<noteq> [] \<and> CHR ''/'' \<notin> set owner \<and> tail \<noteq> [] \<and> CHR ''/'' \<notin> set tail)"
    (is "?L \<longleftrightarrow> \<not> ?D")
  proof
    assume n: ?L
    show "\<not> ?D"
    proof
      assume ?D
      then obtain pre sep owner tail where
        u: "url = pre @ (''github.com'' @ [sep] @ owner @ ''/'' @ tail)"
        and c: "sep = CHR ''/'' \<or> sep = CHR '':''" "owner \<noteq> []" "CHR ''/'' \<notin> set owner"
               "tail \<noteq> []" "CHR ''/'' \<notin> set tail"
        by auto
      from re_search_complete [OF match_at_complete [OF c], of pre] u n
      show False by (simp add: get_repo_name_from_url_def)
    qed
  next
    assume nd: "\<not> ?D"
    show ?L
    proof (rule ccontr)
      assume "\<not> ?L"
      then obtain r where "re_search url = Some r" by (auto simp: get_repo_name_from_url_def)
      from re_search_sound [OF this] obtain pre s where u: "url = pre @ s"
        and m: "match_at s = Some r" by blast
      then have "match_at s \<noteq> None" by simp
      then obtain sep owner tail where "s = ''github.com'' @ [sep] @ owner @ ''/'' @ tail"
        "sep = CHR ''/'' \<or> sep = CHR '':''" "owner \<noteq> []" "CHR ''/'' \<notin> set owner"
        "tail \<noteq> []" "CHR ''/'' \<notin> set tail"
        unfolding match_at_None_iff by blast
      with u have ?D by blast
      with nd show False by blast
    qed
  qed
next
  fix r
  let ?R = "\<exists>pre sep owner repo suf.
            url = pre @ ''github.com'' @ [sep] @ owner @ ''/'' @ repo @ suf
            \<and> r = owner @ ''/'' @ repo
            \<and> (sep = CHR ''/'' \<or> sep = CHR '':'')
            \<and> owner \<noteq> [] \<and> CHR ''/'' \<notin> set owner \<and> repo \<noteq> [] \<and> CHR ''/'' \<notin> set repo
            \<and> (suf = [] \<or> suf = [CHR 0x0A] \<or> suf = ''.git'' \<or> suf = ''.git'' @ [CHR 0x0A])
            \<and> (\<forall>k. 0 < k \<and> k < length repo \<longrightarrow>
                  drop k (repo @ suf) \<noteq> [] \<and> drop k (repo @ suf) \<noteq> [CHR 0x0A]
                  \<and> drop k (repo @ suf) \<noteq> ''.git''
                  \<and> drop k (repo @ suf) \<noteq> ''.git'' @ [CHR 0x0A])
            \<and> (\<forall>pre' sep' owner' tail'.
                  url = pre' @ ''github.com'' @ [sep'] @ owner' @ ''/'' @ tail'
                  \<and> (sep' = CHR ''/'' \<or> sep' = CHR '':'')
                  \<and> owner' \<noteq> [] \<and> CHR ''/'' \<notin> set owner'
                  \<and> tail' \<noteq> [] \<and> CHR ''/'' \<notin> set tail' \<longrightarrow> length pre \<le> length pre')
            \<and> (endswith ''.git'' repo \<and> (suf = [] \<or> suf = [CHR 0x0A]) \<longrightarrow> repo = ''.git'')"
  show "get_repo_name_from_url url = Some r \<longleftrightarrow> ?R"
  proof
    assume "get_repo_name_from_url url = Some r"
    then have "re_search url = Some r" by (simp add: get_repo_name_from_url_def)
    from re_search_leftmost [OF this] obtain pre s where u: "url = pre @ s"
      and m: "match_at s = Some r"
      and l: "\<forall>pre' s'. url = pre' @ s' \<and> length pre' < length pre \<longrightarrow> match_at s' = None"
      by blast
    from match_at_sound [OF m] obtain sep owner repo suf where
      d: "s = ''github.com'' @ [sep] @ owner @ ''/'' @ repo @ suf"
         "r = owner @ ''/'' @ repo"
         "sep = CHR ''/'' \<or> sep = CHR '':''" "owner \<noteq> []" "CHR ''/'' \<notin> set owner"
         "repo \<noteq> []" "CHR ''/'' \<notin> set repo" "git_dollar suf"
         "\<forall>k. 0 < k \<and> k < length repo \<longrightarrow> \<not> git_dollar (drop k (repo @ suf))"
      by blast
    have k: "endswith ''.git'' repo \<and> (suf = [] \<or> suf = [CHR 0x0A]) \<longrightarrow> repo = ''.git''"
      using lazy_keeps_git_only_when_bare [OF d(9)] by blast
    from d(8) have sf: "suf = [] \<or> suf = [CHR 0x0A] \<or> suf = ''.git'' \<or> suf = ''.git'' @ [CHR 0x0A]"
      by (simp add: git_dollar_iff)
    from d(9) have mn: "\<forall>k. 0 < k \<and> k < length repo \<longrightarrow>
                  drop k (repo @ suf) \<noteq> [] \<and> drop k (repo @ suf) \<noteq> [CHR 0x0A]
                  \<and> drop k (repo @ suf) \<noteq> ''.git''
                  \<and> drop k (repo @ suf) \<noteq> ''.git'' @ [CHR 0x0A]"
      by (simp add: git_dollar_iff)
    have lm: "\<forall>pre' sep' owner' tail'.
                  url = pre' @ ''github.com'' @ [sep'] @ owner' @ ''/'' @ tail'
                  \<and> (sep' = CHR ''/'' \<or> sep' = CHR '':'')
                  \<and> owner' \<noteq> [] \<and> CHR ''/'' \<notin> set owner'
                  \<and> tail' \<noteq> [] \<and> CHR ''/'' \<notin> set tail' \<longrightarrow> length pre \<le> length pre'"
    proof (intro allI impI)
      fix pre' sep' owner' tail'
      assume a: "url = pre' @ ''github.com'' @ [sep'] @ owner' @ ''/'' @ tail'
                  \<and> (sep' = CHR ''/'' \<or> sep' = CHR '':'')
                  \<and> owner' \<noteq> [] \<and> CHR ''/'' \<notin> set owner'
                  \<and> tail' \<noteq> [] \<and> CHR ''/'' \<notin> set tail'"
      then have c: "sep' = CHR ''/'' \<or> sep' = CHR '':''" "owner' \<noteq> []" "CHR ''/'' \<notin> set owner'"
        "tail' \<noteq> []" "CHR ''/'' \<notin> set tail'" by simp_all
      show "length pre \<le> length pre'"
      proof (rule ccontr)
        assume "\<not> length pre \<le> length pre'"
        then have "length pre' < length pre" by simp
        have lt: "length pre' < length pre" by fact
        from a have e: "url = pre' @ (''github.com'' @ [sep'] @ owner' @ ''/'' @ tail')"
          by (elim conjE) assumption
        from l [rule_format, OF conjI [OF e lt]] match_at_complete [OF c]
        show False by (elim notE)
      qed
    qed
    from u d(1) have u': "url = pre @ ''github.com'' @ [sep] @ owner @ ''/'' @ repo @ suf" by simp
    show ?R
      apply (rule exI [where x=pre], rule exI [where x=sep], rule exI [where x=owner],
             rule exI [where x=repo], rule exI [where x=suf])
      using u' d(2-7) sf mn lm k apply (intro conjI)
                 apply assumption+
      done
  next
    assume ?R
    then obtain pre sep owner repo suf where
      u: "url = pre @ ''github.com'' @ [sep] @ owner @ ''/'' @ repo @ suf"
      and d: "r = owner @ ''/'' @ repo"
         "sep = CHR ''/'' \<or> sep = CHR '':''" "owner \<noteq> []" "CHR ''/'' \<notin> set owner"
         "repo \<noteq> []" "CHR ''/'' \<notin> set repo"
      and sf: "suf = [] \<or> suf = [CHR 0x0A] \<or> suf = ''.git'' \<or> suf = ''.git'' @ [CHR 0x0A]"
      and mn: "\<forall>k. 0 < k \<and> k < length repo \<longrightarrow>
                  drop k (repo @ suf) \<noteq> [] \<and> drop k (repo @ suf) \<noteq> [CHR 0x0A]
                  \<and> drop k (repo @ suf) \<noteq> ''.git''
                  \<and> drop k (repo @ suf) \<noteq> ''.git'' @ [CHR 0x0A]"
      and lm: "\<forall>pre' sep' owner' tail'.
                  url = pre' @ ''github.com'' @ [sep'] @ owner' @ ''/'' @ tail'
                  \<and> (sep' = CHR ''/'' \<or> sep' = CHR '':'')
                  \<and> owner' \<noteq> [] \<and> CHR ''/'' \<notin> set owner'
                  \<and> tail' \<noteq> [] \<and> CHR ''/'' \<notin> set tail' \<longrightarrow> length pre \<le> length pre'"
      by (elim exE conjE) (rule that)
    let ?s = "''github.com'' @ [sep] @ owner @ ''/'' @ repo @ suf"
    from sf have g: "git_dollar suf" by (simp add: git_dollar_iff)
    from mn have mg: "\<forall>k. 0 < k \<and> k < length repo \<longrightarrow> \<not> git_dollar (drop k (repo @ suf))"
      by (simp add: git_dollar_iff)
    have "\<exists>sep' owner' repo' suf'. ?s = ''github.com'' @ [sep'] @ owner' @ ''/'' @ repo' @ suf'
           \<and> r = owner' @ ''/'' @ repo' \<and> (sep' = CHR ''/'' \<or> sep' = CHR '':'')
           \<and> owner' \<noteq> [] \<and> CHR ''/'' \<notin> set owner'
           \<and> repo' \<noteq> [] \<and> CHR ''/'' \<notin> set repo' \<and> git_dollar suf'
           \<and> (\<forall>k. 0 < k \<and> k < length repo' \<longrightarrow> \<not> git_dollar (drop k (repo' @ suf')))"
      apply (rule exI [where x=sep], rule exI [where x=owner],
             rule exI [where x=repo], rule exI [where x=suf])
      using d g mg apply (intro conjI)
              apply (rule refl)
             apply assumption+
      done
    then have m: "match_at ?s = Some r" by (simp only: match_at_Some_iff)
    have l: "\<forall>pre' s'. url = pre' @ s' \<and> length pre' < length pre \<longrightarrow> match_at s' = None"
    proof (intro allI impI)
      fix pre' s' assume a: "url = pre' @ s' \<and> length pre' < length pre"
      show "match_at s' = None"
      proof (rule ccontr)
        assume "match_at s' \<noteq> None"
        then obtain sep' owner' tail' where q: "s' = ''github.com'' @ [sep'] @ owner' @ ''/'' @ tail'"
          "sep' = CHR ''/'' \<or> sep' = CHR '':''" "owner' \<noteq> []" "CHR ''/'' \<notin> set owner'"
          "tail' \<noteq> []" "CHR ''/'' \<notin> set tail'"
          unfolding match_at_None_iff by blast
        from a have e: "url = pre' @ s'" and lt: "length pre' < length pre" by simp_all
        have cj: "url = pre' @ ''github.com'' @ [sep'] @ owner' @ ''/'' @ tail'
                  \<and> (sep' = CHR ''/'' \<or> sep' = CHR '':'')
                  \<and> owner' \<noteq> [] \<and> CHR ''/'' \<notin> set owner'
                  \<and> tail' \<noteq> [] \<and> CHR ''/'' \<notin> set tail'"
          using e q by simp
        from lm [rule_format, OF cj] lt show False by simp
      qed
    qed
    have "\<exists>p s. url = p @ s \<and> match_at s = Some r
        \<and> (\<forall>pre' s'. url = pre' @ s' \<and> length pre' < length p \<longrightarrow> match_at s' = None)"
      apply (rule exI [where x=pre], rule exI [where x="?s"])
      using u m l apply (intro conjI)
        apply assumption+
      done
    then have "re_search url = Some r" by (simp only: re_search_Some_iff)
    then show "get_repo_name_from_url url = Some r" by (simp add: get_repo_name_from_url_def)
  qed
qed

lemmas matcher_eval = get_repo_name_from_url_def match_at_def match_group1_def match_repo_def
  git_dollar_def at_dollar_def endswith_def

text \<open>
  C9 (counterexample). For a URL whose repository text is just \<^verbatim>\<open>.git\<close> the returned
  name still ends in \<^verbatim>\<open>.git\<close>: the suffix of the input has not been stripped.
\<close>

theorem C9_git_suffix_kept:
  "get_repo_name_from_url ''https://github.com/acme/.git'' = Some ''acme/.git''
   \<and> endswith ''.git'' ''https://github.com/acme/.git''
   \<and> endswith ''.git'' ''acme/.git''"
  by (simp add: matcher_eval)

theorem C9_get_repo_name_from_url_witness:
  "get_repo_name_from_url ''https://github.com/acme/foo.git'' = Some ''acme/foo''
   \<and> (\<exists>pre sep owner repo suf.
        ''https://github.com/acme/foo.git'' = pre @ ''github.com'' @ [sep] @ owner @ ''/'' @ repo @ suf
        \<and> ''acme/foo'' = owner @ ''/'' @ repo \<and> CHR ''/'' \<notin> set owner \<and> CHR ''/'' \<notin> set repo)
   \<and> get_repo_name_from_url ''https://gitlab.com/acme/foo'' = None
   \<and> \<not> (\<exists>pre sep owner tail.
            ''https://gitlab.com/acme/foo'' = pre @ ''github.com'' @ [sep] @ owner @ ''/'' @ tail
            \<and> (sep = CHR ''/'' \<or> sep = CHR '':'')
            \<and> owner \<noteq> [] \<and> CHR ''/'' \<notin> set owner \<and> tail \<noteq> [] \<and> CHR ''/'' \<notin> set tail)"
proof -
  have a: "get_repo_name_from_url ''https://github.com/acme/foo.git'' = Some ''acme/foo''"
    by (simp add: matcher_eval)
  have b: "get_repo_name_from_url ''https://gitlab.com/acme/foo'' = None"
    by (simp add: matcher_eval)
  from C9_get_repo_name_from_url [of "''https://github.com/acme/foo.git''"] a
  have c: "\<exists>pre sep owner repo suf.
        ''https://github.com/acme/foo.git'' = pre @ ''github.com'' @ [sep] @ owner @ ''/'' @ repo @ suf
        \<and> ''acme/foo'' = owner @ ''/'' @ repo \<and> CHR ''/'' \<notin> set owner \<and> CHR ''/'' \<notin> set repo"
    by blast
  from C9_get_repo_name_from_url [of "''https://gitlab.com/acme/foo''"] b
  have d: "\<not> (\<exists>pre sep owner tail.
            ''https://gitlab.com/acme/foo'' = pre @ ''github.com'' @ [sep] @ owner @ ''/'' @ tail
            \<and> (sep = CHR ''/'' \<or> sep = CHR '':'')
            \<and> owner \<noteq> [] \<and> CHR ''/'' \<notin> set owner \<and> tail \<noteq> [] \<and> CHR ''/'' \<notin> set tail)"
    by blast
  from a b c d show ?thesis by blast
qed


section \<open>The state file\<close>

lemma write_removes_temp: "temp (fst (snd (write_state path flt serialized fs))) = None"
  by (simp add: write_state_def Let_def split: prod.splits option.splits)

lemma write_serializable_returns:
  "fst (write_state path flt (Some text) fs) = None"
  by (cases flt) (simp_all add: write_state_def try_block_def Let_def caught_by_write_def)

lemma write_lock_timeout_keeps_content:
  "target (fst (snd (write_state path LockTimesOut (Some text) \<lparr>target = Some prior, temp = t\<rparr>)))
     = Some prior"
  by (simp add: write_state_def try_block_def Let_def caught_by_write_def)

lemma write_no_fault_installs:
  "fst (snd (write_state path NoFault (Some text) fs)) = \<lparr>target = Some text, temp = None\<rparr>"
  by (simp add: write_state_def try_block_def Let_def)

text \<open>
  C3 (the code at the failing input). A write of \<^verbatim>\<open>{"b": 2}\<close> over a state file holding
  \<^verbatim>\<open>{"a": 1}\<close>, with no failure at all: after the lock on the state file has been taken and
  before the replace, the state file is empty. It holds neither the prior nor the new state.
\<close>

theorem C3_state_file_empty_before_replace:
  \<open>fst (try_block NoFault (Some ''{"b": 2}'') \<lparr>target = Some ''{"a": 1}'', temp = None\<rparr>) ! 3
     = \<lparr>target = Some [], temp = Some ''{"b": 2}''\<rparr>
   \<and> fst (try_block NoFault (Some ''{"b": 2}'') \<lparr>target = Some ''{"a": 1}'', temp = None\<rparr>) ! 4
     = \<lparr>target = Some ''{"b": 2}'', temp = None\<rparr>
   \<and> Some [] \<noteq> Some ''{"a": 1}'' \<and> Some [] \<noteq> Some ''{"b": 2}''\<close>
  by (simp add: try_block_def Let_def)

text \<open>
  C10 (the code at the failing input). The same write, with an OS error raised by the
  replace: the error is caught and logged and the temporary file is removed, but the state
  file is left empty, its previous content lost.
\<close>

theorem C10_replace_error_empties_state_file:
  \<open>write_state ''state.json'' ReplaceFails (Some ''{"b": 2}'') \<lparr>target = Some ''{"a": 1}'', temp = None\<rparr>
     = (None, \<lparr>target = Some [], temp = None\<rparr>,
        [(ERROR, ''Failed to write state file '' @ quoted ''state.json'' @ '': replace'')])\<close>
  by (simp add: write_state_def try_block_def Let_def caught_by_write_def)
section \<open>The command executor\<close>

lemma run_FileNotFound:
  "snd (run t FileNotFound cmd cwd check quiet) = Inl (CommandError (not_found_msg cmd) None)"
  by (simp add: run_def Let_def)

lemma run_TimedOut:
  "snd (run t (TimedOut p) cmd cwd check quiet) =
     (if check then Inl (CommandError (timeout_msg cmd t) (Some (TimeoutExpired cmd t p)))
      else Inr (TimeoutExpired cmd t p))"
  by (simp add: run_def Let_def)

lemma run_Exited:
  "snd (run t (Exited rc out err) cmd cwd check quiet) =
     (if check \<and> rc \<noteq> 0
      then Inl (CommandError
                 (failed_msg cmd rc (if strip err \<noteq> [] then strip err else strip out))
                 (Some (CompletedProcess cmd rc out err)))
      else Inr (CompletedProcess cmd rc out err))"
  by (simp add: run_def Let_def)

text \<open>
  C4 (counterexample). With \<^verbatim>\<open>check=False\<close> an elapsed time ceiling does not fail: the
  expired-timeout object is handed back as the ordinary return value.
\<close>

theorem C4_timeout_unchecked_returns:
  "failure_of (snd (run 1200 (TimedOut None) [''gh'', ''repo'', ''view''] ''/w'' False True)) = None
   \<and> snd (run 1200 (TimedOut None) [''gh'', ''repo'', ''view''] ''/w'' False True)
       = Inr (TimeoutExpired [''gh'', ''repo'', ''view''] 1200 None)"
  by (simp add: run_TimedOut)

text \<open>
  C4 (amended). A missing executable always fails with ExecutableNotFound. An elapsed time
  ceiling fails with Timeout exactly when \<^verbatim>\<open>check\<close> is set and is otherwise returned as
  data. A process that ran to its end fails, with NonZeroExit, exactly when \<^verbatim>\<open>check\<close> is
  set and the exit code is not zero; the failure text then ends in the stripped standard
  error when that is non-empty and in the stripped standard output otherwise; in every
  other case the completed process is returned unchanged.
\<close>

theorem C4_run_classification:
  "failure_of (snd (run t FileNotFound cmd cwd check quiet)) = Some ExecutableNotFound
   \<and> failure_of (snd (run t (TimedOut p) cmd cwd check quiet))
       = (if check then Some Timeout else None)
   \<and> snd (run t (TimedOut p) cmd cwd False quiet) = Inr (TimeoutExpired cmd t p)
   \<and> failure_of (snd (run t (Exited rc out err) cmd cwd check quiet))
       = (if check \<and> rc \<noteq> 0 then Some NonZeroExit else None)
   \<and> failure_text (snd (run t (Exited rc out err) cmd cwd check quiet))
       = (if check \<and> rc \<noteq> 0
          then failed_msg cmd rc (if strip err \<noteq> [] then strip err else strip out)
          else [])
   \<and> snd (run t (Exited rc out err) cmd cwd False quiet) = Inr (CompletedProcess cmd rc out err)"
  by (simp add: run_FileNotFound run_TimedOut run_Exited)

theorem C4_run_classification_witness:
  "failure_of (snd (run 1200 (Exited 1 ''out'' '' '') [''uv'', ''lock''] ''/w'' True False))
     = Some NonZeroExit
   \<and> failure_text (snd (run 1200 (Exited 1 ''out'' '' '') [''uv'', ''lock''] ''/w'' True False))
     = failed_msg [''uv'', ''lock''] 1 ''out''
   \<and> failure_of (snd (run 1200 (Exited 1 ''out'' ''err'') [''uv'', ''lock''] ''/w'' False False))
     = None"
  using C4_run_classification [of 1200 "[''uv'', ''lock'']" "''/w''" True False None 1 "''out''" "'' ''"]
        C4_run_classification [of 1200 "[''uv'', ''lock'']" "''/w''" False False None 1 "''out''" "''err''"]
  by (simp add: strip_def lstrip_def rstrip_def py_isspace_def)


section \<open>Commands in a world\<close>

lemma exec_exited:
  assumes "sys cmd cwd (exists_paths w) = (Exited rc out err, fs')" "rc = 0 \<or> \<not> check"
  shows "\<exists>w'. exec cfg sys cmd cwd check quiet w = (Inr (CompletedProcess cmd rc out err), w')
            \<and> exists_paths w' = fs'"
  using assms by (auto simp: exec_def run_def Let_def)

lemma git_exited:
  assumes "sys (''git'' # args) cwd (exists_paths w) = (Exited rc out err, fs')" "rc = 0 \<or> \<not> check"
  shows "\<exists>w'. git cfg sys args cwd check quiet w = (Inr (if out = [] then [] else strip out), w')
            \<and> exists_paths w' = fs'"
proof -
  from exec_exited [where sys=sys and cmd="''git'' # args" and cfg=cfg and quiet=quiet, OF assms] obtain w' where
    "exec cfg sys (''git'' # args) cwd check quiet w = (Inr (CompletedProcess (''git'' # args) rc out err), w')"
    "exists_paths w' = fs'" by blast
  then show ?thesis by (simp add: git_def stdout_text_def)
qed

lemma gh_exited:
  assumes "sys (''gh'' # args) cwd (exists_paths w) = (Exited rc out err, fs')" "rc = 0 \<or> \<not> check"
  shows "\<exists>w'. gh cfg sys args cwd check quiet w = (Inr (if out = [] then [] else strip out), w')
            \<and> exists_paths w' = fs'"
proof -
  from exec_exited [where sys=sys and cmd="''gh'' # args" and cfg=cfg and quiet=quiet, OF assms] obtain w' where
    "exec cfg sys (''gh'' # args) cwd check quiet w = (Inr (CompletedProcess (''gh'' # args) rc out err), w')"
    "exists_paths w' = fs'" by blast
  then show ?thesis by (simp add: gh_def stdout_text_def)
qed

lemma and_then_Inr: "m w = (Inr x, w') \<Longrightarrow> and_then m f w = f x w'"
  by (simp add: and_then_def)

lemma and_then_InrD:
  "and_then m f w = (Inr r, w') \<Longrightarrow> \<exists>x w1. m w = (Inr x, w1) \<and> f x w1 = (Inr r, w')"
  by (auto simp: and_then_def split: prod.splits sum.splits)


lemma strip_hosting_answer: "strip hosting_answer = hosting_answer"
  by (simp add: strip_def lstrip_def rstrip_def hosting_answer_def py_isspace_def)

lemma ws_branch_query:
  "\<exists>w'. gh example_config working_system
            [''repo'', ''view'', ''acme/foo'', ''--json'', ''defaultBranchRef'']
            cwd False True w = (Inr hosting_answer, w')
        \<and> exists_paths w' = exists_paths w \<and> trace w' = trace w @
             [([''gh'', ''repo'', ''view'', ''acme/foo'', ''--json'', ''defaultBranchRef''], cwd)]
        \<and> wlog w' = wlog w"
  by (simp add: gh_def exec_def run_def working_system_def stdout_text_def Let_def
      strip_hosting_answer)

lemma lookup_hosting_answer:
  "branch_lookup example_loads hosting_answer = Inr (Some (JStr ''master''))"
  by (simp add: branch_lookup_def example_loads_def) (simp add: hosting_answer_def)


section \<open>The default branch\<close>

lemma branch_handlers_log:
  "\<exists>m. branch_handlers repo e w = w\<lparr>wlog := wlog w @ [(WARNING, m)]\<rparr>"
  by (rule exI [of _ "handler_message repo e"]) (simp add: branch_handlers_def add_log_def)

lemma branch_lookup_value:
  "branch_lookup loads s = Inr (Some v) \<longleftrightarrow>
     s \<noteq> [] \<and> (\<exists>kvs kvs'. loads s = Some (JObj kvs) \<and> kvs \<noteq> []
                   \<and> map_of kvs ''defaultBranchRef'' = Some (JObj kvs')
                   \<and> map_of kvs' ''name'' = Some v)"
proof
  assume a: "branch_lookup loads s = Inr (Some v)"
  then have s: "s \<noteq> []" by (auto simp: branch_lookup_def split: if_splits)
  from a s obtain d where d: "loads s = Some d" "truthy d"
    by (auto simp: branch_lookup_def split: if_splits option.splits)
  from a s d obtain ref where r: "subscript d ''defaultBranchRef'' = Inr ref"
    "subscript ref ''name'' = Inr v"
    by (auto simp: branch_lookup_def split: sum.splits)
  from r(1) obtain kvs where k: "d = JObj kvs" "map_of kvs ''defaultBranchRef'' = Some ref"
    by (cases d) (auto split: option.splits)
  from r(2) obtain kvs' where k': "ref = JObj kvs'" "map_of kvs' ''name'' = Some v"
    by (cases ref) (auto split: option.splits)
  from d k have "kvs \<noteq> []" by auto
  with s d k k' show "s \<noteq> [] \<and> (\<exists>kvs kvs'. loads s = Some (JObj kvs) \<and> kvs \<noteq> []
                   \<and> map_of kvs ''defaultBranchRef'' = Some (JObj kvs')
                   \<and> map_of kvs' ''name'' = Some v)"
    by blast
next
  assume "s \<noteq> [] \<and> (\<exists>kvs kvs'. loads s = Some (JObj kvs) \<and> kvs \<noteq> []
                   \<and> map_of kvs ''defaultBranchRef'' = Some (JObj kvs')
                   \<and> map_of kvs' ''name'' = Some v)"
  then show "branch_lookup loads s = Inr (Some v)"
    by (auto simp: branch_lookup_def)
qed

lemma branch_lookup_silent:
  "branch_lookup loads s = Inr None \<longleftrightarrow>
     s = [] \<or> (\<exists>d. loads s = Some d \<and> \<not> truthy d)"
  by (auto simp: branch_lookup_def split: option.splits sum.splits)

text \<open>
  C6 (counterexample). The hosting tool exits with an authentication error and prints
  nothing on its standard output: the lookup returns \<^verbatim>\<open>"main"\<close> and the log is as empty as
  before. No warning has been logged.
\<close>

theorem C6_auth_error_no_warning:
  "fst (get_default_branch example_config failing_system (\<lambda>s. None) ''acme/foo'' empty_world)
     = JStr ''main''
   \<and> wlog (snd (get_default_branch example_config failing_system (\<lambda>s. None) ''acme/foo''
                  empty_world)) = []"
  by (simp add: get_default_branch_def gh_def exec_def run_def example_config_def
      empty_world_def failing_system_def stdout_text_def branch_lookup_def Let_def)

lemma branch_lookup_cases:
  "(\<exists>u. branch_lookup loads s = Inr (Some u)) \<or> branch_lookup loads s = Inr None
     \<or> (\<exists>e. branch_lookup loads s = Inl e)"
  by (cases "branch_lookup loads s") (auto split: option.splits)

text \<open>
  C6 (amended). The lookup always returns a value, with the world that the one call of the
  hosting tool left and at most one warning added to its log. When the tool's output is
  not empty and parses to an object whose \<^verbatim>\<open>defaultBranchRef\<close> is an object with a \<^verbatim>\<open>name\<close>,
  the value returned is the value of that name and nothing is logged; in every other case
  the value returned is \<^verbatim>\<open>"main"\<close>. No warning is logged exactly when that name is returned,
  when the output is empty, or when it parses to an empty (false) document; in every
  other case (the tool missing, the output unparsable, the document incomplete or of
  another shape) exactly one warning is logged.
\<close>

theorem C6_get_default_branch:
  assumes call: "gh cfg sys [''repo'', ''view'', repo, ''--json'', ''defaultBranchRef'']
                    (PROJECT_ROOT cfg) False True w = (r, w')"
  shows "\<exists>v warn. get_default_branch cfg sys loads repo w = (v, w'\<lparr>wlog := wlog w' @ warn\<rparr>)
           \<and> (\<forall>out kvs kvs' u. r = Inr out \<and> out \<noteq> [] \<and> loads out = Some (JObj kvs)
                    \<and> map_of kvs ''defaultBranchRef'' = Some (JObj kvs')
                    \<and> map_of kvs' ''name'' = Some u \<longrightarrow> v = u \<and> warn = [])
           \<and> (\<not> (\<exists>out kvs kvs' u. r = Inr out \<and> out \<noteq> [] \<and> loads out = Some (JObj kvs)
                    \<and> map_of kvs ''defaultBranchRef'' = Some (JObj kvs')
                    \<and> map_of kvs' ''name'' = Some u) \<longrightarrow> v = JStr ''main'')
           \<and> (v \<noteq> JStr ''main'' \<longrightarrow>
                (\<exists>out kvs kvs'. r = Inr out \<and> loads out = Some (JObj kvs)
                    \<and> map_of kvs ''defaultBranchRef'' = Some (JObj kvs')
                    \<and> map_of kvs' ''name'' = Some v))
           \<and> (warn = [] \<or> (\<exists>m. warn = [(WARNING, m)]))
           \<and> (warn = [] \<longleftrightarrow>
                (\<exists>out. r = Inr out
                    \<and> (out = [] \<or> (\<exists>d. loads out = Some d \<and> \<not> truthy d)
                        \<or> (\<exists>u. branch_lookup loads out = Inr (Some u)))))"
proof (cases r)
  case (Inl e)
  obtain m where m: "branch_handlers repo e w' = w'\<lparr>wlog := wlog w' @ [(WARNING, m)]\<rparr>"
    using branch_handlers_log by blast
  have "get_default_branch cfg sys loads repo w = (JStr ''main'', w'\<lparr>wlog := wlog w' @ [(WARNING, m)]\<rparr>)"
    using call Inl m by (simp add: get_default_branch_def)
  with Inl show ?thesis by auto
next
  case (Inr out)
  note r = Inr
  have wf: "\<And>u. branch_lookup loads out = Inr (Some u) \<longleftrightarrow>
              (\<exists>kvs kvs'. out \<noteq> [] \<and> loads out = Some (JObj kvs)
                    \<and> map_of kvs ''defaultBranchRef'' = Some (JObj kvs')
                    \<and> map_of kvs' ''name'' = Some u)"
    unfolding branch_lookup_value by auto
  from branch_lookup_cases [of loads out] show ?thesis
  proof (elim disjE exE)
    fix u assume look: "branch_lookup loads out = Inr (Some u)"
    have g: "get_default_branch cfg sys loads repo w = (u, w'\<lparr>wlog := wlog w' @ []\<rparr>)"
      using call r look by (simp add: get_default_branch_def)
    from look obtain kvs kvs' where k: "out \<noteq> []" "loads out = Some (JObj kvs)"
      "map_of kvs ''defaultBranchRef'' = Some (JObj kvs')" "map_of kvs' ''name'' = Some u"
      unfolding wf by blast
    show ?thesis
      apply (rule exI [where x=u], rule exI [where x="[]"])
      using g r k look by auto
  next
    assume look: "branch_lookup loads out = Inr None"
    have g: "get_default_branch cfg sys loads repo w = (JStr ''main'', w'\<lparr>wlog := wlog w' @ []\<rparr>)"
      using call r look by (simp add: get_default_branch_def)
    have s: "out = [] \<or> (\<exists>d. loads out = Some d \<and> \<not> truthy d)"
      using look branch_lookup_silent [of loads out] by simp
    have n: "\<not> (\<exists>kvs kvs' u. out \<noteq> [] \<and> loads out = Some (JObj kvs)
                    \<and> map_of kvs ''defaultBranchRef'' = Some (JObj kvs')
                    \<and> map_of kvs' ''name'' = Some u)"
      using look wf by (metis option.distinct(1) sum.inject(2))
    show ?thesis
      apply (rule exI [where x="JStr ''main''"], rule exI [where x="[]"])
      using g r s n by auto
  next
    fix e assume look: "branch_lookup loads out = Inl e"
    obtain m where m: "branch_handlers repo e w' = w'\<lparr>wlog := wlog w' @ [(WARNING, m)]\<rparr>"
      using branch_handlers_log by blast
    have g: "get_default_branch cfg sys loads repo w
               = (JStr ''main'', w'\<lparr>wlog := wlog w' @ [(WARNING, m)]\<rparr>)"
      using call r look m by (simp add: get_default_branch_def)
    have s: "\<not> (out = [] \<or> (\<exists>d. loads out = Some d \<and> \<not> truthy d))"
      using look branch_lookup_silent [of loads out] by auto
    have n: "\<not> (\<exists>kvs kvs' u. out \<noteq> [] \<and> loads out = Some (JObj kvs)
                    \<and> map_of kvs ''defaultBranchRef'' = Some (JObj kvs')
                    \<and> map_of kvs' ''name'' = Some u)"
      using look wf by (metis sum.distinct(1))
    show ?thesis
      apply (rule exI [where x="JStr ''main''"], rule exI [where x="[(WARNING, m)]"])
      using g r s n look by auto
  qed
qed

theorem C6_get_default_branch_witness:
  "fst (get_default_branch example_config working_system example_loads ''acme/foo'' empty_world)
     = JStr ''master''
   \<and> wlog (snd (get_default_branch example_config working_system example_loads ''acme/foo''
                  empty_world)) = []"
proof -
  from ws_branch_query [of "PROJECT_ROOT example_config" empty_world] obtain w' where
    call: "gh example_config working_system
            [''repo'', ''view'', ''acme/foo'', ''--json'', ''defaultBranchRef'']
            (PROJECT_ROOT example_config) False True empty_world = (Inr hosting_answer, w')"
    and l: "wlog w' = wlog empty_world"
    by blast
  have h: "hosting_answer \<noteq> []" by (simp add: hosting_answer_def)
  have ld: "example_loads hosting_answer
              = Some (JObj [(''defaultBranchRef'', JObj [(''name'', JStr ''master'')])])"
    by (simp add: example_loads_def)
  have m1: "map_of [(''defaultBranchRef'', JObj [(''name'', JStr ''master'')])] ''defaultBranchRef''
              = Some (JObj [(''name'', JStr ''master'')])" by simp
  have m2: "map_of [(''name'', JStr ''master'')] ''name'' = Some (JStr ''master'')" by simp
  from C6_get_default_branch [OF call, of example_loads] obtain v warn where
    g: "get_default_branch example_config working_system example_loads ''acme/foo'' empty_world
          = (v, w'\<lparr>wlog := wlog w' @ warn\<rparr>)"
    and i: "\<forall>out kvs kvs' u. Inr hosting_answer = (Inr out :: exn + string) \<and> out \<noteq> []
                    \<and> example_loads out = Some (JObj kvs)
                    \<and> map_of kvs ''defaultBranchRef'' = Some (JObj kvs')
                    \<and> map_of kvs' ''name'' = Some u \<longrightarrow> v = u \<and> warn = []"
    by blast
  from i [rule_format, of hosting_answer _ _ "JStr ''master''"] h ld m1 m2
  have "v = JStr ''master'' \<and> warn = []" by blast
  with g l show ?thesis by (simp add: empty_world_def)
qed

section \<open>Setting up a plugin repository\<close>

lemma last_segment_pair:
  assumes "CHR ''/'' \<notin> set repo"
  shows "last_segment (owner @ ''/'' @ repo) = repo"
proof -
  let ?P = "\<lambda>c. c \<noteq> CHR ''/''"
  have "rev (owner @ ''/'' @ repo) = rev repo @ CHR ''/'' # rev owner" by simp
  moreover have "takeWhile ?P (rev repo @ CHR ''/'' # rev owner) = takeWhile ?P (rev repo)"
    by (rule takeWhile_tail) simp
  moreover have "takeWhile ?P (rev repo) = rev repo"
    using assms by (auto simp: takeWhile_eq_all_conv)
  ultimately have "takeWhile ?P (rev (owner @ ''/'' @ repo)) = rev repo" by metis
  then show ?thesis unfolding last_segment_def by simp
qed

lemma repo_name_nonempty:
  assumes "get_repo_name_from_url url = Some rn"
  shows "rn \<noteq> []"
proof -
  from assms have "re_search url = Some rn" by (simp add: get_repo_name_from_url_def)
  from re_search_sound [OF this] obtain pre s where "match_at s = Some rn" by blast
  from match_at_sound [OF this] show ?thesis by auto
qed

lemma setup_existing:
  assumes "get_repo_name_from_url url = Some rn"
    and "PLUGINS_SRC_DIR cfg @ [last_segment rn] \<in> exists_paths w"
  shows "setup_plugin_repo cfg sys loads url w =
           (Inr (''exists'', Some (PLUGINS_SRC_DIR cfg @ [last_segment rn])),
            add_log INFO (''  - Plugin '' @ quoted (last_segment rn) @ '' already exists locally.'') w)"
  using assms repo_name_nonempty [OF assms(1)]
  by (simp add: setup_plugin_repo_def Let_def)

lemma setup_steps_result:
  assumes "setup_steps cfg sys loads url rn pn lp w = (Inr r, w')"
  shows "r = (''success'', Some lp)"
proof -
  note d = and_then_InrD
  from assms show ?thesis
    unfolding setup_steps_def Let_def
    by (auto dest!: d simp: ret_def)
qed

lemma setup_success_path:
  assumes "setup_plugin_repo cfg sys loads url w = (Inr (''success'', Some p), w1)"
  shows "\<exists>rn. get_repo_name_from_url url = Some rn \<and> p = PLUGINS_SRC_DIR cfg @ [last_segment rn]"
proof (cases "get_repo_name_from_url url")
  case None
  with assms show ?thesis by (simp add: setup_plugin_repo_def)
next
  case (Some rn)
  let ?lp = "PLUGINS_SRC_DIR cfg @ [last_segment rn]"
  let ?w = "add_log INFO (''--- Setting up new plugin: '' @ last_segment rn @ '' ---'') w"
  from assms Some have ne: "rn \<noteq> []" "?lp \<notin> exists_paths w"
    by (auto simp: setup_plugin_repo_def Let_def split: if_splits)
  obtain a b where ab: "setup_steps cfg sys loads url rn (last_segment rn) ?lp ?w = (a, b)"
    by (cases "setup_steps cfg sys loads url rn (last_segment rn) ?lp ?w") auto
  show ?thesis
  proof (cases a)
    case (Inr r)
    with ab setup_steps_result have "r = (''success'', Some ?lp)" by blast
    moreover from assms Some ne ab Inr have "r = (''success'', Some p)"
      by (simp add: setup_plugin_repo_def Let_def)
    ultimately show ?thesis using Some by simp
  next
    case (Inl e)
    with assms Some ne ab show ?thesis
      by (cases e) (simp_all add: setup_plugin_repo_def Let_def)
  qed
qed

lemma ws_git:
  assumes "take 1 args \<noteq> [''clone'']"
  shows "\<exists>w'. git example_config working_system args cwd check quiet w = (Inr [], w')
           \<and> exists_paths w' = exists_paths w"
proof -
  have "working_system (''git'' # args) cwd (exists_paths w) = (Exited 0 [] [], exists_paths w)"
    using assms by (cases args) (simp_all add: working_system_def)
  from git_exited [where sys=working_system and cfg=example_config and quiet=quiet
      and check=check, OF this]
  show ?thesis by simp
qed

lemma ws_clone:
  "\<exists>w'. git example_config working_system (''clone'' # rest) cwd check quiet w = (Inr [], w')
           \<and> exists_paths w' = insert [''w'', ''plugins'', ''foo''] (exists_paths w)"
proof -
  have "working_system (''git'' # ''clone'' # rest) cwd (exists_paths w)
          = (Exited 0 [] [], insert [''w'', ''plugins'', ''foo''] (exists_paths w))"
    by (simp add: working_system_def)
  from git_exited [where sys=working_system and cfg=example_config and quiet=quiet
      and check=check, OF this]
  show ?thesis by simp
qed

lemma ws_gh:
  assumes "length args \<noteq> 5"
  shows "\<exists>w'. gh example_config working_system args cwd check quiet w = (Inr [], w')
           \<and> exists_paths w' = exists_paths w"
proof -
  have "working_system (''gh'' # args) cwd (exists_paths w) = (Exited 0 [] [], exists_paths w)"
    using assms by (auto simp: working_system_def)
  from gh_exited [where sys=working_system and cfg=example_config and quiet=quiet
      and check=check, OF this]
  show ?thesis by simp
qed

lemma ws_default_branch:
  "\<exists>w'. default_branch example_config working_system example_loads ''acme/foo'' w
           = (Inr (JStr ''master''), w') \<and> exists_paths w' = exists_paths w"
proof -
  from ws_branch_query [of "PROJECT_ROOT example_config" w] obtain w' where
    "gh example_config working_system
            [''repo'', ''view'', ''acme/foo'', ''--json'', ''defaultBranchRef'']
            (PROJECT_ROOT example_config) False True w = (Inr hosting_answer, w')"
    "exists_paths w' = exists_paths w" by blast
  then show ?thesis
    by (simp add: default_branch_def get_default_branch_def lookup_hosting_answer)
qed

lemma repo_name_example:
  "get_repo_name_from_url ''https://github.com/acme/foo.git'' = Some ''acme/foo''"
  by (simp add: matcher_eval)

lemma first_setup_succeeds:
  "\<exists>w1. setup_plugin_repo example_config working_system example_loads
           ''https://github.com/acme/foo.git'' empty_world
           = (Inr (''success'', Some [''w'', ''plugins'', ''foo'']), w1)
        \<and> [''w'', ''plugins'', ''foo''] \<in> exists_paths w1"
proof -
  let ?cfg = example_config and ?sys = working_system
  let ?lp = "[''w'', ''plugins'', ''foo'']"
  let ?w0 = "add_log INFO (''--- Setting up new plugin: foo ---'') empty_world"
  have ls: "last_segment ''acme/foo'' = ''foo''" by (simp add: last_segment_def)
  have cfg: "PLUGINS_SRC_DIR ?cfg = [''w'', ''plugins'']" "YOUR_GITHUB_ORG ?cfg = ''my-bot-workspace''"
    "DEV_BRANCH ?cfg = ''dev''" "PROJECT_ROOT ?cfg = [''w'']"
    by (simp_all add: example_config_def)
  obtain w1 where s1: "gh ?cfg ?sys [''repo'', ''view'', ''my-bot-workspace/foo'']
      [''w''] False True ?w0 = (Inr [], w1)" using ws_gh [where args="[''repo'', ''view'', ''my-bot-workspace/foo'']" and cwd="[''w'']" and check=False and quiet=True and w="?w0"] by auto
  obtain w2 where s2: "info (''  - Forking acme/foo...'') w1 = (Inr (), w2)"
    by (simp add: info_def)
  obtain w3 where s3: "gh ?cfg ?sys [''repo'', ''fork'', ''acme/foo'', ''--org=my-bot-workspace'']
      [''w''] True False w2 = (Inr [], w3)"
    using ws_gh [where args="[''repo'', ''fork'', ''acme/foo'', ''--org=my-bot-workspace'']" and cwd="[''w'']" and check=True and quiet=False and w="w2"] by auto
  obtain w4 where s4: "info (''  - Cloning my-bot-workspace/foo...'') w3 = (Inr (), w4)"
    by (simp add: info_def)
  obtain w5 where s5: "mkdir_parents [''w'', ''plugins''] w4 = (Inr (), w5)"
    by (simp add: mkdir_parents_def)
  obtain w6 where s6: "git ?cfg ?sys [''clone'', ''https://github.com/my-bot-workspace/foo.git'',
      str_path ?lp]
      [''w''] True False w5 = (Inr [], w6)"
    and e6: "?lp \<in> exists_paths w6"
    using ws_clone [where rest="[''https://github.com/my-bot-workspace/foo.git'',
      str_path ?lp]" and cwd="[''w'']" and check=True and quiet=False and w="w5"] by auto
  obtain w7 where s7: "git ?cfg ?sys [''remote'', ''add'', ''upstream'', ''https://github.com/acme/foo.git'']
      ?lp False False w6 = (Inr [], w7)" and e7: "exists_paths w7 = exists_paths w6"
    using ws_git [where args="[''remote'', ''add'', ''upstream'', ''https://github.com/acme/foo.git'']" and cwd="?lp" and check=False and quiet=False and w="w6"] by auto
  obtain w8 where s8: "info ''  - Setting up 'dev' branch...'' w7 = (Inr (), w8)"
    and e8: "exists_paths w8 = exists_paths w7"
    by (simp add: info_def add_log_def)
  obtain w9 where s9: "git ?cfg ?sys [''ls-remote'', ''--heads'', ''origin'', ''refs/heads/dev'']
      ?lp False True w8 = (Inr [], w9)" and e9: "exists_paths w9 = exists_paths w8"
    using ws_git [where args="[''ls-remote'', ''--heads'', ''origin'', ''refs/heads/dev'']" and cwd="?lp" and check=False and quiet=True and w="w8"] by auto
  obtain w10 where s10: "default_branch ?cfg ?sys example_loads ''acme/foo'' w9
      = (Inr (JStr ''master''), w10)" and e10: "exists_paths w10 = exists_paths w9"
    using ws_default_branch by blast
  obtain w11 where s11: "git ?cfg ?sys [''fetch'', ''upstream'', ''master'']
      ?lp True True w10 = (Inr [], w11)" and e11: "exists_paths w11 = exists_paths w10"
    using ws_git [where args="[''fetch'', ''upstream'', ''master'']" and cwd="?lp" and check=True and quiet=True and w="w10"] by auto
  obtain w12 where s12: "git ?cfg ?sys [''checkout'', ''-b'', ''dev'', ''upstream/master'']
      ?lp True False w11 = (Inr [], w12)" and e12: "exists_paths w12 = exists_paths w11"
    using ws_git [where args="[''checkout'', ''-b'', ''dev'', ''upstream/master'']" and cwd="?lp" and check=True and quiet=False and w="w11"] by auto
  obtain w13 where s13: "git ?cfg ?sys [''push'', ''-u'', ''origin'', ''dev'']
      ?lp True False w12 = (Inr [], w13)" and e13: "exists_paths w13 = exists_paths w12"
    using ws_git [where args="[''push'', ''-u'', ''origin'', ''dev'']" and cwd="?lp" and check=True and quiet=False and w="w12"] by auto
  have steps: "setup_steps ?cfg ?sys example_loads ''https://github.com/acme/foo.git''
      ''acme/foo'' ''foo'' ?lp ?w0 = (Inr (''success'', Some ?lp), w13)"
    unfolding setup_steps_def Let_def cfg
    by (simp add: and_then_def ret_def quoted_def s1 s2 s3 s4 s5 s6 s7 s8 s9 s10 s11 s12 s13)
  have fresh: "?lp \<notin> exists_paths empty_world" by (simp add: empty_world_def)
  have "setup_plugin_repo ?cfg ?sys example_loads ''https://github.com/acme/foo.git'' empty_world
          = (Inr (''success'', Some ?lp), w13)"
    using steps fresh
    by (simp add: setup_plugin_repo_def repo_name_example ls cfg Let_def)
  moreover have "?lp \<in> exists_paths w13"
    using e6 e7 e8 e9 e10 e11 e12 e13 by simp
  ultimately show ?thesis by blast
qed

text \<open>
  C7. When the URL parses and the local plugin directory exists, the call returns
  \<^verbatim>\<open>"exists"\<close> with that directory, issues no external command and leaves the existing
  paths as they are. So a second call with the same URL, after a first one that returned
  \<^verbatim>\<open>"success"\<close> with a directory that still exists, returns \<^verbatim>\<open>"exists"\<close> with the same
  directory and clones nothing.
\<close>

theorem C7_setup_plugin_repo_exists:
  "(get_repo_name_from_url url = Some rn
      \<and> PLUGINS_SRC_DIR cfg @ [last_segment rn] \<in> exists_paths w \<longrightarrow>
        fst (setup_plugin_repo cfg sys loads url w)
          = Inr (''exists'', Some (PLUGINS_SRC_DIR cfg @ [last_segment rn]))
        \<and> trace (snd (setup_plugin_repo cfg sys loads url w)) = trace w
        \<and> exists_paths (snd (setup_plugin_repo cfg sys loads url w)) = exists_paths w)
   \<and> (setup_plugin_repo cfg sys loads url w = (Inr (''success'', Some p), w1)
      \<and> p \<in> exists_paths w1 \<longrightarrow>
        fst (setup_plugin_repo cfg sys loads url w1) = Inr (''exists'', Some p)
        \<and> trace (snd (setup_plugin_repo cfg sys loads url w1)) = trace w1
        \<and> exists_paths (snd (setup_plugin_repo cfg sys loads url w1)) = exists_paths w1)"
proof (intro conjI impI)
  assume a: "get_repo_name_from_url url = Some rn
      \<and> PLUGINS_SRC_DIR cfg @ [last_segment rn] \<in> exists_paths w"
  then have e: "setup_plugin_repo cfg sys loads url w =
           (Inr (''exists'', Some (PLUGINS_SRC_DIR cfg @ [last_segment rn])),
            add_log INFO (''  - Plugin '' @ quoted (last_segment rn) @ '' already exists locally.'') w)"
    using setup_existing by blast
  show "fst (setup_plugin_repo cfg sys loads url w)
          = Inr (''exists'', Some (PLUGINS_SRC_DIR cfg @ [last_segment rn]))"
    by (simp add: e)
  show "trace (snd (setup_plugin_repo cfg sys loads url w)) = trace w"
    by (simp add: e add_log_def)
  show "exists_paths (snd (setup_plugin_repo cfg sys loads url w)) = exists_paths w"
    by (simp add: e add_log_def)
next
  assume b: "setup_plugin_repo cfg sys loads url w = (Inr (''success'', Some p), w1)
      \<and> p \<in> exists_paths w1"
  then obtain rn where rn: "get_repo_name_from_url url = Some rn"
    "p = PLUGINS_SRC_DIR cfg @ [last_segment rn]"
    using setup_success_path by blast
  with b have "PLUGINS_SRC_DIR cfg @ [last_segment rn] \<in> exists_paths w1" by simp
  from setup_existing [OF rn(1) this, of sys loads]
  have e: "setup_plugin_repo cfg sys loads url w1 =
           (Inr (''exists'', Some p),
            add_log INFO (''  - Plugin '' @ quoted (last_segment rn) @ '' already exists locally.'') w1)"
    using rn(2) by simp
  show "fst (setup_plugin_repo cfg sys loads url w1) = Inr (''exists'', Some p)"
    by (simp add: e)
  show "trace (snd (setup_plugin_repo cfg sys loads url w1)) = trace w1"
    by (simp add: e add_log_def)
  show "exists_paths (snd (setup_plugin_repo cfg sys loads url w1)) = exists_paths w1"
    by (simp add: e add_log_def)
qed

theorem C7_setup_plugin_repo_exists_witness:
  "fst (setup_plugin_repo example_config working_system example_loads
          ''https://github.com/acme/foo.git''
          (snd (setup_plugin_repo example_config working_system example_loads
                  ''https://github.com/acme/foo.git'' empty_world)))
     = Inr (''exists'', Some [''w'', ''plugins'', ''foo''])
   \<and> trace (snd (setup_plugin_repo example_config working_system example_loads
          ''https://github.com/acme/foo.git''
          (snd (setup_plugin_repo example_config working_system example_loads
                  ''https://github.com/acme/foo.git'' empty_world))))
     = trace (snd (setup_plugin_repo example_config working_system example_loads
                  ''https://github.com/acme/foo.git'' empty_world))"
proof -
  from first_setup_succeeds obtain w1 where
    f: "setup_plugin_repo example_config working_system example_loads
           ''https://github.com/acme/foo.git'' empty_world
           = (Inr (''success'', Some [''w'', ''plugins'', ''foo'']), w1)"
    and p: "[''w'', ''plugins'', ''foo''] \<in> exists_paths w1"
    by blast
  from C7_setup_plugin_repo_exists [of "''https://github.com/acme/foo.git''" "''acme/foo''"
      example_config empty_world working_system example_loads "[''w'', ''plugins'', ''foo'']" w1]
    f p
  have "fst (setup_plugin_repo example_config working_system example_loads
          ''https://github.com/acme/foo.git'' w1) = Inr (''exists'', Some [''w'', ''plugins'', ''foo''])
        \<and> trace (snd (setup_plugin_repo example_config working_system example_loads
          ''https://github.com/acme/foo.git'' w1)) = trace w1"
    by blast
  with f show ?thesis by simp
qed

section \<open>Batch commands\<close>

lemma fold_collect_fst_other:
  "k \<notin> name ` set ps \<Longrightarrow> fst (fold (collect worker) ps acc) k = fst acc k"
  by (induction ps arbitrary: acc)
     (auto simp: collect_def split: outcome.splits)


lemma fold_collect_entry:
  assumes "distinct (map name ps)" "p \<in> set ps" "fst acc (name p) = None"
  shows "fst (fold (collect worker) ps acc) (name p) = entry worker p"
  using assms
proof (induction ps arbitrary: acc)
  case Nil
  then show ?case by simp
next
  case (Cons q qs)
  show ?case
  proof (cases "p = q")
    case True
    with Cons.prems(1) have "name p \<notin> name ` set qs" by auto
    then have "fst (fold (collect worker) (q # qs) acc) (name p)
                 = fst (collect worker q acc) (name p)"
      by (simp add: fold_collect_fst_other)
    also have "\<dots> = entry worker p"
      using True Cons.prems(3) by (auto simp: collect_def entry_def split: outcome.splits)
    finally show ?thesis .
  next
    case False
    with Cons.prems have in_qs: "p \<in> set qs" and ne: "name q \<noteq> name p" by auto
    have "fst (collect worker q acc) (name p) = None"
      using ne Cons.prems(3) by (auto simp: collect_def split: outcome.splits)
    with Cons.IH [of "collect worker q acc"] Cons.prems(1) in_qs show ?thesis by simp
  qed
qed

lemma fold_collect_log:
  "snd (fold (collect worker) ps acc)
     = snd acc @ concat (map (\<lambda>p. case worker p of Raised exc \<Rightarrow> [(ERROR, critical_msg p exc)]
                                     | Returned res \<Rightarrow> []) ps)"
  by (induction ps arbitrary: acc) (auto simp: collect_def split: outcome.splits)

lemma fold_collect_logged:
  assumes "p \<in> set ps" "worker p = Raised exc"
  shows "(ERROR, critical_msg p exc) \<in> set (snd (fold (collect worker) ps acc))"
  using assms by (auto simp: fold_collect_log intro!: bexI [of _ p])

lemma exec_failed_checked:
  assumes "sys cmd cwd (exists_paths w) = (Exited rc out err, fs')" "rc \<noteq> 0"
  shows "\<exists>m r w'. exec cfg sys cmd cwd True quiet w = (Inl (CommandError m r), w')"
  using assms by (auto simp: exec_def run_def Let_def)


lemma commit_worker_status_fails:
  assumes "sys [''git'', ''status'', ''--porcelain''] p (exists_paths w) = (Exited rc out err, fs')"
    "rc \<noteq> 0"
  shows "\<exists>m r. outcome_in w (commit_worker cfg sys msg change_id p) = Raised (CommandError m r)"
proof -
  from exec_failed_checked [where sys=sys and cfg=cfg and quiet=True, OF assms]
  obtain m r w' where "exec cfg sys [''git'', ''status'', ''--porcelain''] p True True w
      = (Inl (CommandError m r), w')" by blast
  then have "git cfg sys [''status'', ''--porcelain''] p True True w = (Inl (CommandError m r), w')"
    by (simp add: git_def)
  then show ?thesis
    by (simp add: outcome_in_def commit_worker_def is_workspace_dirty_def and_then_def)
qed

lemma commit_worker_commits:
  assumes st: "\<And>fs. sys [''git'', ''status'', ''--porcelain''] p fs = (Exited 0 out [], fs)"
    and dirty: "strip out \<noteq> []"
    and ok: "\<And>args fs. args \<noteq> [''status'', ''--porcelain''] \<Longrightarrow> sys (''git'' # args) p fs = (Exited 0 [] [], fs)"
  shows "outcome_in w (commit_worker cfg sys msg change_id p) = Returned [(''committed'', PyBool True)]"
proof -
  from dirty have o: "out \<noteq> []" by (auto simp: strip_def lstrip_def rstrip_def)
  from git_exited [where sys=sys and args="[''status'', ''--porcelain'']" and cfg=cfg
      and quiet=True and check=True and w=w, OF st]
  obtain w1 where s1: "git cfg sys [''status'', ''--porcelain''] p True True w = (Inr (strip out), w1)"
    using o by auto
  from git_exited [where sys=sys and args="[''add'', ''.'']" and cfg=cfg
      and quiet=False and check=True and w=w1, OF ok]
  obtain w2 where s2: "git cfg sys [''add'', ''.''] p True False w1 = (Inr [], w2)" by auto
  let ?fm = "msg @ [CHR 0x0A, CHR 0x0A] @ ''Change-ID: '' @ change_id"
  from git_exited [where sys=sys and args="[''commit'', ''-m'', ?fm]" and cfg=cfg
      and quiet=False and check=True and w=w2, OF ok]
  obtain w3 where s3: "git cfg sys [''commit'', ''-m'', ?fm] p True False w2 = (Inr [], w3)" by auto
  show ?thesis
    using s1 s2 s3 dirty
    by (simp add: outcome_in_def commit_worker_def is_workspace_dirty_def and_then_def ret_def Let_def)
qed

lemma execute_fold:
  "target_paths \<noteq> [] \<Longrightarrow>
     execute d s n worker target_paths completed
       = fold (collect worker) completed
           (Map.empty, [(INFO, d @ '' (Scope: '' @ s @ '', Concurrency: '' @ str_int n @ '')'')])"
  by (simp add: execute_def Let_def)




lemma batch_bar:
  "\<exists>m r. outcome_in empty_world
            (commit_worker example_config batch_system ''msg'' ''I0'' [''w'', ''plugins'', ''bar''])
          = Raised (CommandError m r)"
proof -
  have "batch_system [''git'', ''status'', ''--porcelain''] [''w'', ''plugins'', ''bar'']
          (exists_paths empty_world)
        = (Exited 128 [] ''fatal: not a git repository'', exists_paths empty_world)"
    by (simp add: batch_system_def name_def)
  from commit_worker_status_fails [where sys=batch_system and cfg=example_config and msg="''msg''" and change_id="''I0''", OF this] show ?thesis by simp
qed

lemma batch_other:
  assumes "name p \<noteq> ''bar''"
  shows "outcome_in empty_world (commit_worker example_config batch_system ''msg'' ''I0'' p)
           = Returned [(''committed'', PyBool True)]"
proof (rule commit_worker_commits [where sys=batch_system and out="'' M bot.py''"])
  show "\<And>fs. batch_system [''git'', ''status'', ''--porcelain''] p fs = (Exited 0 '' M bot.py'' [], fs)"
    using assms by (simp add: batch_system_def)
  show "strip '' M bot.py'' \<noteq> []"
    by (simp add: strip_def lstrip_def rstrip_def py_isspace_def)
  show "\<And>args fs. args \<noteq> [''status'', ''--porcelain''] \<Longrightarrow>
          batch_system (''git'' # args) p fs = (Exited 0 [] [], fs)"
    using assms by (simp add: batch_system_def)
qed

lemma five_repos_names: "map name five_repos = [''w'', ''bar'', ''baz'', ''foo'', ''qux'']"
  by (simp add: five_repos_def name_def)

lemma five_repos_distinct: "distinct (map name five_repos)"
  by (simp add: five_repos_names)


text \<open>
  C2 (counterexample). Five repositories, of which \<^verbatim>\<open>bar\<close> is broken: its worker raises
  the \<^verbatim>\<open>CommandError\<close> of the status query. The mapping returned has no entry for
  \<^verbatim>\<open>bar\<close>: the failure is not recorded in it.
\<close>

theorem C2_raising_worker_not_recorded:
  "fst (execute ''commit'' ''all'' 8
          (\<lambda>p. outcome_in empty_world (commit_worker example_config batch_system ''msg'' ''I0'' p))
          five_repos five_repos) ''bar'' = None"
proof -
  let ?worker = "\<lambda>p. outcome_in empty_world (commit_worker example_config batch_system ''msg'' ''I0'' p)"
  let ?bar = "[''w'', ''plugins'', ''bar'']"
  have ne: "five_repos \<noteq> []" by (simp add: five_repos_def)
  have i: "?bar \<in> set five_repos" by (simp add: five_repos_def)
  have n: "name ?bar = ''bar''" by (simp add: name_def)
  from batch_bar have e: "entry ?worker ?bar = None" by (auto simp: entry_def)
  have "fst (fold (collect ?worker) five_repos
          (Map.empty, [(INFO, ''commit'' @ '' (Scope: '' @ ''all'' @ '', Concurrency: '' @ str_int 8 @ '')'')]))
          (name ?bar) = entry ?worker ?bar"
    by (rule fold_collect_entry [OF five_repos_distinct i]) simp
  with e n ne show ?thesis by (simp add: execute_fold)
qed

text \<open>
  C2 (amended). When the worker of a repository raises, whatever the order of completion:
  the exception is caught and logged as an error that names the repository; the mapping
  has no entry under that repository's name; and every repository has exactly the entry
  its own worker produced, so all the other workers' results are collected. (The names of
  the repositories are taken to be distinct, as the keys of the mapping are names.)
\<close>

theorem C2_raising_worker_isolated:
  assumes "mset completed = mset target_paths"
    and "distinct (map name target_paths)"
    and "p \<in> set target_paths"
    and "worker p = Raised exc"
  shows "(ERROR, critical_msg p exc) \<in> set (snd (execute d s n worker target_paths completed))
         \<and> fst (execute d s n worker target_paths completed) (name p) = None
         \<and> (\<forall>q \<in> set target_paths.
               fst (execute d s n worker target_paths completed) (name q) = entry worker q)"
proof -
  from assms(3) have ne: "target_paths \<noteq> []" by auto
  from assms(1) have st: "set completed = set target_paths" by (rule mset_eq_setD)
  from assms(1) have "mset (map name completed) = mset (map name target_paths)" by simp
  with assms(2) have dc: "distinct (map name completed)"
    using mset_eq_imp_distinct_iff by blast
  let ?acc = "(Map.empty :: string \<rightharpoonup> dict,
               [(INFO, d @ '' (Scope: '' @ s @ '', Concurrency: '' @ str_int n @ '')'')])"
  have ex: "execute d s n worker target_paths completed = fold (collect worker) completed ?acc"
    using ne by (rule execute_fold)
  have each: "\<forall>q \<in> set target_paths.
               fst (execute d s n worker target_paths completed) (name q) = entry worker q"
  proof
    fix q assume "q \<in> set target_paths"
    with st have "q \<in> set completed" by simp
    from fold_collect_entry [OF dc this, of ?acc worker] ex
    show "fst (execute d s n worker target_paths completed) (name q) = entry worker q" by simp
  qed
  from assms(4) have "entry worker p = None" by (simp add: entry_def)
  with each assms(3) have none: "fst (execute d s n worker target_paths completed) (name p) = None"
    by simp
  from assms(3) st have "p \<in> set completed" by simp
  from fold_collect_logged [where worker=worker and acc="?acc", OF this assms(4)] ex
  have "(ERROR, critical_msg p exc) \<in> set (snd (execute d s n worker target_paths completed))"
    by simp
  with none each show ?thesis by blast
qed

theorem C2_raising_worker_isolated_witness:
  "fst (execute ''commit'' ''all'' 8
          (\<lambda>p. outcome_in empty_world (commit_worker example_config batch_system ''msg'' ''I0'' p))
          five_repos (rev five_repos)) ''bar'' = None
   \<and> fst (execute ''commit'' ''all'' 8
          (\<lambda>p. outcome_in empty_world (commit_worker example_config batch_system ''msg'' ''I0'' p))
          five_repos (rev five_repos)) ''foo'' = Some [(''committed'', PyBool True)]"
proof -
  let ?worker = "\<lambda>p. outcome_in empty_world (commit_worker example_config batch_system ''msg'' ''I0'' p)"
  let ?bar = "[''w'', ''plugins'', ''bar'']" and ?foo = "[''w'', ''plugins'', ''foo'']"
  have m: "mset (rev five_repos) = mset five_repos" by simp
  have i: "?bar \<in> set five_repos" "?foo \<in> set five_repos" by (simp_all add: five_repos_def)
  have n: "name ?bar = ''bar''" "name ?foo = ''foo''" by (simp_all add: name_def)
  from batch_bar obtain msg r where b: "?worker ?bar = Raised (CommandError msg r)" by blast
  have f: "entry ?worker ?foo = Some [(''committed'', PyBool True)]"
    using batch_other [of ?foo] by (simp add: entry_def name_def)
  from C2_raising_worker_isolated [where worker="?worker" and d="''commit''" and s="''all''" and n=8, OF m five_repos_distinct i(1) b]
    i(2) n f
  show ?thesis by force
qed

section \<open>Removing a dependency\<close>

lemma uv_trace:
  "trace (snd (uv cfg sys args cwd check quiet w)) = trace w @ [(''uv'' # args, cwd)]"
  by (simp add: uv_def exec_def Let_def split: prod.splits)

lemma uv_result:
  "fst (uv cfg sys args cwd check quiet w)
     = snd (run (COMMAND_TIMEOUT cfg) (fst (sys (''uv'' # args) cwd (exists_paths w)))
              (''uv'' # args) (str_path cwd) check quiet)"
  by (simp add: uv_def exec_def Let_def split: prod.splits)

lemma remove_dependency_cases:
  assumes "uv cfg sys [''remove'', fst (package_to_remove str_of pkg_name plugin_file)]
             (PROJECT_ROOT cfg) True False
             (w\<lparr>wlog := wlog w @ snd (package_to_remove str_of pkg_name plugin_file)\<rparr>) = (r, w2)"
  shows "fst (remove_dependency cfg sys str_of plugin_file root_file root_writable pkg_name w)
     = (case r of
          Inr res \<Rightarrow> Inr (True, fst (workspace_cleanup cfg str_of pkg_name root_file root_writable))
        | Inl (CommandError m x) \<Rightarrow>
            if contains ''not found in dependencies'' m
            then Inr (True, fst (workspace_cleanup cfg str_of pkg_name root_file root_writable))
            else Inr (False, None)
        | Inl e \<Rightarrow> Inl e)"
    and "trace (snd (remove_dependency cfg sys str_of plugin_file root_file root_writable pkg_name w))
     = trace w2"
  using assms
  by (auto simp: remove_dependency_def Let_def add_log_def split: prod.splits sum.splits exn.splits)

lemma not_found_msg_contains:
  "contains ''not found in dependencies''
     (failed_msg [''uv'', ''remove'', ''foo''] 2 ''error: package foo not found in dependencies'')"
  by (simp add: failed_msg_def quoted_def str_int_def str_nat.simps)

lemma broken_msg_lacks:
  "\<not> contains ''not found in dependencies''
     (failed_msg [''uv'', ''remove'', ''foo''] 2 ''error: Failed to parse pyproject.toml'')"
  by (simp add: failed_msg_def quoted_def str_int_def str_nat.simps)

lemma cleanup_example:
  "workspace_cleanup example_config example_str ''foo'' (Some root_manifest) True
     = (Some (TTab [(''project'', TTab [(''name'', TStr ''bot'')]),
           (''tool'', TTab [(''uv'', TTab [(''workspace'',
              TTab [(''members'', TArr [TStr ''plugins/baz''])])])])]),
        [(INFO, ''Cleaned up '' @ quoted ''plugins/foo'' @ '' from workspace members.'')])"
  by (simp add: workspace_cleanup_def workspace_members_def tget_def tget_opt_def root_manifest_def
      example_config_def example_str_def set_members_def Let_def
      strip_def lstrip_def rstrip_def py_isspace_def)

lemma package_to_remove_absent:
  "package_to_remove str_of ''foo'' None = (''foo'', [])"
  by (simp add: package_to_remove_def replace_char_def Let_def)

lemma uv_checked_failure:
  assumes "sys (''uv'' # args) cwd (exists_paths w) = (Exited rc out err, fs')" "rc \<noteq> 0"
    "strip err \<noteq> []"
  shows "fst (uv cfg sys args cwd True quiet w)
           = Inl (CommandError (failed_msg (''uv'' # args) rc (strip err))
                    (Some (CompletedProcess (''uv'' # args) rc out err)))"
  using assms by (simp add: uv_result run_Exited)

text \<open>
  C8 (counterexample). The dependency tool fails with an error of its own while the
  workspace-member list of the root manifest holds \<^verbatim>\<open>plugins/foo\<close>: the call returns
  \<^verbatim>\<open>False\<close> and writes no manifest, although the edit, had it run, would have written one.
\<close>

theorem C8_other_failure_skips_cleanup:
  "fst (remove_dependency example_config broken_uv_system example_str None (Some root_manifest)
          True ''foo'' empty_world) = Inr (False, None)
   \<and> fst (workspace_cleanup example_config example_str ''foo'' (Some root_manifest) True) \<noteq> None"
proof -
  let ?w1 = "empty_world\<lparr>wlog := wlog empty_world @ snd (package_to_remove example_str ''foo'' None)\<rparr>"
  have s: "broken_uv_system (''uv'' # [''remove'', ''foo'']) (PROJECT_ROOT example_config)
             (exists_paths ?w1)
           = (Exited 2 [] ''error: Failed to parse pyproject.toml'', exists_paths ?w1)"
    by (simp add: broken_uv_system_def)
  have st: "strip ''error: Failed to parse pyproject.toml'' = ''error: Failed to parse pyproject.toml''"
    by (simp add: strip_def lstrip_def rstrip_def py_isspace_def)
  have r: "fst (uv example_config broken_uv_system [''remove'', ''foo'']
                 (PROJECT_ROOT example_config) True False ?w1)
           = Inl (CommandError (failed_msg [''uv'', ''remove'', ''foo''] 2
                                  ''error: Failed to parse pyproject.toml'')
                    (Some (CompletedProcess [''uv'', ''remove'', ''foo''] 2 []
                             ''error: Failed to parse pyproject.toml'')))"
    using uv_checked_failure [where sys=broken_uv_system and cfg=example_config
        and quiet=False, OF s] st by simp
  obtain r' w2 where c: "uv example_config broken_uv_system
        [''remove'', fst (package_to_remove example_str ''foo'' None)]
        (PROJECT_ROOT example_config) True False ?w1 = (r', w2)"
    by (meson surj_pair)
  with r have r': "r' = Inl (CommandError (failed_msg [''uv'', ''remove'', ''foo''] 2
                                  ''error: Failed to parse pyproject.toml'')
                    (Some (CompletedProcess [''uv'', ''remove'', ''foo''] 2 []
                             ''error: Failed to parse pyproject.toml'')))"
    by (simp add: package_to_remove_absent)
  from remove_dependency_cases(1) [OF c, of "Some root_manifest" True] r' broken_msg_lacks
  have "fst (remove_dependency example_config broken_uv_system example_str None (Some root_manifest)
          True ''foo'' empty_world) = Inr (False, None)"
    by simp
  then show ?thesis by (simp add: cleanup_example)
qed

lemma remove_dependency_log:
  assumes "uv cfg sys [''remove'', fst (package_to_remove str_of pkg_name plugin_file)]
             (PROJECT_ROOT cfg) True False
             (w\<lparr>wlog := wlog w @ snd (package_to_remove str_of pkg_name plugin_file)\<rparr>) = (r, w2)"
  shows "wlog (snd (remove_dependency cfg sys str_of plugin_file root_file root_writable pkg_name w))
     = (case r of
          Inr res \<Rightarrow> wlog w2 @ snd (workspace_cleanup cfg str_of pkg_name root_file root_writable)
        | Inl (CommandError m x) \<Rightarrow>
            if contains ''not found in dependencies'' m
            then wlog w2
                 @ [(WARNING, ''Dependency '' @ quoted (fst (package_to_remove str_of pkg_name plugin_file))
                              @ '' not found in project dependencies.'')]
                 @ snd (workspace_cleanup cfg str_of pkg_name root_file root_writable)
            else wlog w2
                 @ [(ERROR, ''Failed to remove dependency ''
                            @ quoted (fst (package_to_remove str_of pkg_name plugin_file))
                            @ [CHR '':'', CHR 0x0A] @ m)]
        | Inl e \<Rightarrow> wlog w2)"
  using assms
  by (auto simp: remove_dependency_def Let_def add_log_def split: prod.splits sum.splits exn.splits)

text \<open>
  C8 (amended). The removal through the dependency tool is always attempted first, whatever
  the state of the root manifest. When it succeeds, or fails with a message holding
  \<^verbatim>\<open>not found in dependencies\<close> (then logged as a warning), the edit of the
  workspace-member list runs and the call returns \<^verbatim>\<open>True\<close>, also when that edit itself fails
  and writes nothing. When it fails with any other message, the failure is logged as an
  error, the call returns \<^verbatim>\<open>False\<close> and the workspace-member list is not touched.
\<close>

theorem C8_remove_dependency_steps:
  assumes "uv cfg sys [''remove'', fst (package_to_remove str_of pkg_name plugin_file)]
             (PROJECT_ROOT cfg) True False
             (w\<lparr>wlog := wlog w @ snd (package_to_remove str_of pkg_name plugin_file)\<rparr>) = (r, w2)"
  shows "((\<exists>res. r = Inr res)
            \<or> (\<exists>m x. r = Inl (CommandError m x) \<and> contains ''not found in dependencies'' m) \<longrightarrow>
          fst (remove_dependency cfg sys str_of plugin_file root_file root_writable pkg_name w)
            = Inr (True, fst (workspace_cleanup cfg str_of pkg_name root_file root_writable)))
       \<and> ((\<exists>m x. r = Inl (CommandError m x) \<and> \<not> contains ''not found in dependencies'' m) \<longrightarrow>
          fst (remove_dependency cfg sys str_of plugin_file root_file root_writable pkg_name w)
            = Inr (False, None))
       \<and> trace (snd (remove_dependency cfg sys str_of plugin_file root_file root_writable pkg_name w))
            = trace w @ [([''uv'', ''remove'', fst (package_to_remove str_of pkg_name plugin_file)],
                          PROJECT_ROOT cfg)]
       \<and> (\<forall>m x. r = Inl (CommandError m x) \<and> contains ''not found in dependencies'' m \<longrightarrow>
            wlog (snd (remove_dependency cfg sys str_of plugin_file root_file root_writable pkg_name w))
              = wlog w2
                @ [(WARNING, ''Dependency '' @ quoted (fst (package_to_remove str_of pkg_name plugin_file))
                             @ '' not found in project dependencies.'')]
                @ snd (workspace_cleanup cfg str_of pkg_name root_file root_writable))
       \<and> (\<forall>m x. r = Inl (CommandError m x) \<and> \<not> contains ''not found in dependencies'' m \<longrightarrow>
            wlog (snd (remove_dependency cfg sys str_of plugin_file root_file root_writable pkg_name w))
              = wlog w2
                @ [(ERROR, ''Failed to remove dependency ''
                           @ quoted (fst (package_to_remove str_of pkg_name plugin_file))
                           @ [CHR '':'', CHR 0x0A] @ m)])
       \<and> (\<forall>res. r = Inr res \<longrightarrow>
            wlog (snd (remove_dependency cfg sys str_of plugin_file root_file root_writable pkg_name w))
              = wlog w2 @ snd (workspace_cleanup cfg str_of pkg_name root_file root_writable))
       \<and> (root_file = None \<or> \<not> root_writable \<longrightarrow>
            fst (workspace_cleanup cfg str_of pkg_name root_file root_writable) = None)"
proof -
  have t: "trace w2 = trace w @ [([''uv'', ''remove'', fst (package_to_remove str_of pkg_name plugin_file)],
                          PROJECT_ROOT cfg)]"
    using uv_trace [of cfg sys "[''remove'', fst (package_to_remove str_of pkg_name plugin_file)]"
        "PROJECT_ROOT cfg" True False
        "w\<lparr>wlog := wlog w @ snd (package_to_remove str_of pkg_name plugin_file)\<rparr>"] assms
    by simp
  have c: "root_file = None \<or> \<not> root_writable \<longrightarrow>
            fst (workspace_cleanup cfg str_of pkg_name root_file root_writable) = None"
    by (auto simp: workspace_cleanup_def Let_def split: option.splits sum.splits toml.splits)
  from remove_dependency_cases [OF assms, of root_file root_writable]
    remove_dependency_log [OF assms, of root_file root_writable] t c
  show ?thesis by auto
qed

theorem C8_remove_dependency_steps_witness:
  "fst (remove_dependency example_config not_found_system example_str None (Some root_manifest)
          True ''foo'' empty_world)
     = Inr (True, Some (TTab [(''project'', TTab [(''name'', TStr ''bot'')]),
           (''tool'', TTab [(''uv'', TTab [(''workspace'',
              TTab [(''members'', TArr [TStr ''plugins/baz''])])])])]))"
proof -
  let ?w1 = "empty_world\<lparr>wlog := wlog empty_world @ snd (package_to_remove example_str ''foo'' None)\<rparr>"
  have s: "not_found_system (''uv'' # [''remove'', ''foo'']) (PROJECT_ROOT example_config)
             (exists_paths ?w1)
           = (Exited 2 [] ''error: package foo not found in dependencies'', exists_paths ?w1)"
    by (simp add: not_found_system_def)
  have st: "strip ''error: package foo not found in dependencies''
              = ''error: package foo not found in dependencies''"
    by (simp add: strip_def lstrip_def rstrip_def py_isspace_def)
  have r: "fst (uv example_config not_found_system [''remove'', ''foo'']
                 (PROJECT_ROOT example_config) True False ?w1)
           = Inl (CommandError (failed_msg [''uv'', ''remove'', ''foo''] 2
                                  ''error: package foo not found in dependencies'')
                    (Some (CompletedProcess [''uv'', ''remove'', ''foo''] 2 []
                             ''error: package foo not found in dependencies'')))"
    using uv_checked_failure [where sys=not_found_system and cfg=example_config
        and quiet=False, OF s] st by simp
  obtain r' w2 where c: "uv example_config not_found_system
        [''remove'', fst (package_to_remove example_str ''foo'' None)]
        (PROJECT_ROOT example_config) True False ?w1 = (r', w2)"
    by (meson surj_pair)
  with r have r': "r' = Inl (CommandError (failed_msg [''uv'', ''remove'', ''foo''] 2
                                  ''error: package foo not found in dependencies'')
                    (Some (CompletedProcess [''uv'', ''remove'', ''foo''] 2 []
                             ''error: package foo not found in dependencies'')))"
    by (simp add: package_to_remove_absent)
  have pr: "(\<exists>res. r' = Inr res)
            \<or> (\<exists>m x. r' = Inl (CommandError m x) \<and> contains ''not found in dependencies'' m)"
    by (intro disjI2 exI conjI) (rule r', rule not_found_msg_contains)
  from C8_remove_dependency_steps [OF c, of "Some root_manifest" True, THEN conjunct1,
      rule_format, OF pr]
  have "fst (remove_dependency example_config not_found_system example_str None (Some root_manifest)
          True ''foo'' empty_world)
        = Inr (True, fst (workspace_cleanup example_config example_str ''foo'' (Some root_manifest) True))" .
  then show ?thesis by (simp add: cleanup_example)
qed

section \<open>The production manifest\<close>










lemma example_map:
  "build_map example_config example_str example_listing example_manifest
     = Inr [''my-plugin'' \<mapsto> ''foo'']"
  by (simp add: build_map_def workspace_member_patterns_def tget_def example_manifest_def
      map_member_def example_config_def example_listing_def map_plugin_dir_def
      get_package_name_from_plugin_dir_def project_section_def tget_opt_def example_str_def
      replace_char_def)

lemma example_entries:
  "dependency_entries example_str no_table example_manifest
     = Inr [(''my_plugin'', TStr ''my_plugin @ file:///w/plugins/foo''),
            (''fastapi>=0.100'', TStr ''fastapi>=0.100''),
            (''ghost'', TStr ''ghost @ file:///w/plugins/ghost'')]"
  by (simp add: dependency_entries_def project_section_def tget_def example_manifest_def
      main_entries_def optional_entries_def no_table_def named_item_def example_str_def)



end
